theory Spec2Isabelle
  imports Complex_Main
begin

section \<open>Data model\<close>

text \<open>
  The simulation core of the game component: the interfaces \<^verbatim>\<open>Vector3\<close>, \<^verbatim>\<open>Player\<close>,
  \<^verbatim>\<open>FireCell\<close>, \<^verbatim>\<open>RefillStation\<close> and \<^verbatim>\<open>GameState\<close> as records. A JavaScript
  \<^verbatim>\<open>number\<close> is modelled as a real (no rounding, no NaN, no infinities; where the
  source can divide by zero the model says what the source does there). The rendering
  handles are kept only as far as the simulation reads them: the \<^verbatim>\<open>mesh\<close> of a fire
  cell is the number of particles of its geometry, which decides how many random draws
  a tick spends on its colours; the player's and the stations' meshes are left out.
  Field names are prefixed where they would clash (\<^verbatim>\<open>x\<close>, \<^verbatim>\<open>z\<close>, \<^verbatim>\<open>position\<close>,
  \<^verbatim>\<open>radius\<close>).
\<close>

record Vector3 =
  vx :: real
  vy :: real
  vz :: real

record Player =
  position :: Vector3
  rotation :: real
  waterLevel :: real
  maxWater :: real
  isRefilling :: bool

record FireCell =
  fx :: real
  fz :: real
  intensity :: real
  spreadTime :: real
  mesh :: "nat option"

record RefillStation =
  sposition :: Vector3
  sradius :: real

record Tree =
  tx :: real
  tz :: real
  tradius :: real

datatype GameStatus = Playing | Won | Lost | Tutorial

text \<open>
  \<^verbatim>\<open>Map<string, FireCell>\<close>: a JavaScript Map keeps its entries in insertion order and
  its iterator also visits entries added while it runs, so the map is the list of its
  entries.
\<close>

type_synonym FireMap = "(string \<times> FireCell) list"

record GameState =
  player :: Player
  fires :: FireMap
  refillStations :: "RefillStation list"
  gameStatus :: GameStatus
  windDirection :: Vector3
  windSpeed :: real
  timeElapsed :: real
  gameSpeed :: real
  trees :: "Tree list"

text \<open>
  The React refs the simulation reads: the set of pressed keys, whether the scene and
  the water particle system exist, and the time stamp of the previous frame.
\<close>

record Refs =
  keysRef :: "string set"
  sceneRef :: bool
  waterParticlesRef :: bool
  lastFrameTimeRef :: real

definition WORLD_SIZE :: real where "WORLD_SIZE = 40"
definition GRID_SIZE :: real where "GRID_SIZE = 2"
definition WATER_RANGE :: real where "WATER_RANGE = 8"
definition REFILL_RATE :: real where "REFILL_RATE = 2"
definition FIRE_SPREAD_RATE :: real where "FIRE_SPREAD_RATE = 4.0"
definition INITIAL_FIRES :: nat where "INITIAL_FIRES = 5"

section \<open>Vectors\<close>

definition distance3D :: "Vector3 \<Rightarrow> Vector3 \<Rightarrow> real" where
  "distance3D a b = sqrt ((vx a - vx b)\<^sup>2 + (vy a - vy b)\<^sup>2 + (vz a - vz b)\<^sup>2)"

definition normalize3D :: "Vector3 \<Rightarrow> Vector3" where
  "normalize3D v =
     (let len = sqrt (vx v * vx v + vy v * vy v + vz v * vz v)
      in if len > 0 then \<lparr>vx = vx v / len, vy = vy v / len, vz = vz v / len\<rparr>
         else \<lparr>vx = 0, vy = 0, vz = 0\<rparr>)"

section \<open>updatePlayer\<close>

text \<open>Lines 507-512: the arrow keys turn the player.\<close>

definition turn :: "string set \<Rightarrow> real \<Rightarrow> real \<Rightarrow> real" where
  "turn ks rot deltaTime =
     (let rotationSpeed = 0.032;
          r1 = (if ''arrowleft'' \<in> ks then rot + rotationSpeed * 60 * deltaTime else rot)
      in if ''arrowright'' \<in> ks then r1 - rotationSpeed * 60 * deltaTime else r1)"

text \<open>Lines 515-519: the movement keys, as the pair (x, z).\<close>

definition moveVector :: "string set \<Rightarrow> real \<times> real" where
  "moveVector ks =
     (let z1 = (if ''w'' \<in> ks then 0 - 1 else 0);
          z2 = (if ''s'' \<in> ks then z1 + 1 else z1);
          x1 = (if ''a'' \<in> ks then 0 - 1 else 0);
          x2 = (if ''d'' \<in> ks then x1 + 1 else x1)
      in (x2, z2))"

text \<open>Lines 522-530: the move vector, normalised and rotated by the new heading.\<close>

definition rotatedMove :: "real \<times> real \<Rightarrow> real \<Rightarrow> real \<times> real" where
  "rotatedMove mv rot =
     (let len = sqrt (fst mv * fst mv + snd mv * snd mv);
          mx = fst mv / len;
          mz = snd mv / len
      in (mx * cos rot - mz * sin rot, mx * sin rot + mz * cos rot))"

text \<open>
  Lines 537-555: the loop over the trees, returning (trunkCollision, inFoliage). It
  breaks at the first trunk hit.
\<close>

fun collideTrees :: "Tree list \<Rightarrow> real \<Rightarrow> real \<Rightarrow> bool \<Rightarrow> bool \<times> bool" where
  "collideTrees [] newX newZ inFoliage = (False, inFoliage)"
| "collideTrees (t # ts) newX newZ inFoliage =
     (let distanceToTree = sqrt ((newX - tx t)\<^sup>2 + (newZ - tz t)\<^sup>2);
          trunkRadius = 0.4
      in if distanceToTree < trunkRadius + 1 then (True, inFoliage)
         else collideTrees ts newX newZ
                (if distanceToTree < tradius t + 1 then True else inFoliage))"

definition clampWorld :: "real \<Rightarrow> real" where
  "clampWorld v = (let halfWorld = WORLD_SIZE / 2 - 2 in max (- halfWorld) (min halfWorld v))"

text \<open>Lines 521-575: the position after the movement block.\<close>

definition movePlayer :: "GameState \<Rightarrow> string set \<Rightarrow> Vector3 \<Rightarrow> real \<Rightarrow> real \<Rightarrow> Vector3" where
  "movePlayer g ks pos rot deltaTime =
     (let baseSpeed = 5; mv = moveVector ks
      in if fst mv \<noteq> 0 \<or> snd mv \<noteq> 0 then
           (let r = rotatedMove mv rot;
                newX = vx pos + fst r * baseSpeed * deltaTime;
                newZ = vz pos + snd r * baseSpeed * deltaTime;
                c = collideTrees (trees g) newX newZ False;
                p1 = (if \<not> fst c then
                        (if snd c then
                           (let reducedSpeed = baseSpeed * 0.5
                            in pos\<lparr>vx := vx pos + fst r * reducedSpeed * deltaTime,
                                   vz := vz pos + snd r * reducedSpeed * deltaTime\<rparr>)
                         else pos\<lparr>vx := newX, vz := newZ\<rparr>)
                      else pos)
            in p1\<lparr>vx := clampWorld (vx p1), vz := clampWorld (vz p1)\<rparr>)
         else pos)"

text \<open>Lines 611-619: the first station the player stands in refills the water.\<close>

fun refillLoop :: "RefillStation list \<Rightarrow> Player \<Rightarrow> real \<Rightarrow> Player" where
  "refillLoop [] pl deltaTime = pl"
| "refillLoop (s # ss) pl deltaTime =
     (if distance3D (position pl) (sposition s) < sradius s
      then pl\<lparr>isRefilling := True,
              waterLevel := min (maxWater pl) (waterLevel pl + REFILL_RATE * deltaTime * 60)\<rparr>
      else refillLoop ss pl deltaTime)"

definition updatePlayer :: "GameState \<Rightarrow> string set \<Rightarrow> Player \<Rightarrow> real \<Rightarrow> Player" where
  "updatePlayer g ks pl deltaTime =
     (let rot = turn ks (rotation pl) deltaTime;
          p1 = pl\<lparr>rotation := rot, position := movePlayer g ks (position pl) rot deltaTime\<rparr>;
          p2 = (if '' '' \<in> ks \<and> waterLevel p1 > 0
                then p1\<lparr>waterLevel := max 0 (waterLevel p1 - 30 * deltaTime)\<rparr>
                else p1)
      in refillLoop (refillStations g) (p2\<lparr>isRefilling := False\<rparr>) deltaTime)"

text \<open>
  Lines 589-602: while the player shoots, every particle of the water effect (100 of
  them) takes three values of \<^verbatim>\<open>Math.random\<close>. They are cosmetic, but they move the
  random source on.
\<close>

definition updatePlayerDraws :: "Refs \<Rightarrow> Player \<Rightarrow> nat" where
  "updatePlayerDraws r pl =
     (if '' '' \<in> keysRef r \<and> waterLevel pl > 0 \<and> waterParticlesRef r then 300 else 0)"

section \<open>The fire map\<close>

text \<open>
  The key of a fire cell is the template string \<^verbatim>\<open>`${Math.floor(x / GRID_SIZE)}-${Math.floor(z / GRID_SIZE)}`\<close>:
  the two grid indices in decimal, joined by a minus sign. (JavaScript prints an integer
  below \<open>10\<^sup>2\<^sup>1\<close> in plain decimal; the coordinates of the game stay far below.)
\<close>

fun showNat :: "nat \<Rightarrow> string" where
  "showNat n = (if n < 10 then [''0123456789'' ! n]
                else showNat (n div 10) @ [''0123456789'' ! (n mod 10)])"

declare showNat.simps [simp del]

definition showInt :: "int \<Rightarrow> string" where
  "showInt k = (if k < 0 then CHR ''-'' # showNat (nat (- k)) else showNat (nat k))"

definition gridKey :: "real \<Rightarrow> real \<Rightarrow> string" where
  "gridKey x z = showInt \<lfloor>x / GRID_SIZE\<rfloor> @ ''-'' @ showInt \<lfloor>z / GRID_SIZE\<rfloor>"

text \<open>\<^verbatim>\<open>Math.floor(x / GRID_SIZE) * GRID_SIZE\<close>: a coordinate snapped to the grid.\<close>

definition snap :: "real \<Rightarrow> real" where
  "snap x = of_int \<lfloor>x / GRID_SIZE\<rfloor> * GRID_SIZE"

definition mapHas :: "string \<Rightarrow> FireMap \<Rightarrow> bool" where
  "mapHas k m = (k \<in> fst ` set m)"

text \<open>\<^verbatim>\<open>Map.set\<close>: an existing key keeps its place and takes the new value, a new key goes last.\<close>

fun mapSet :: "string \<Rightarrow> FireCell \<Rightarrow> FireMap \<Rightarrow> FireMap" where
  "mapSet k v [] = [(k, v)]"
| "mapSet k v (e # m) = (if fst e = k then (k, v) # m else e # mapSet k v m)"

section \<open>initializeFires\<close>

text \<open>
  \<^verbatim>\<open>Math.random\<close> is a sequence \<open>rng\<close> of reals and the number \<open>i\<close> of values drawn so far;
  every function that draws returns the new count. The draws that only colour particles
  are counted, not used.

  Lines 361-365: the least distance from (x, z) to an existing fire; \<open>None\<close> is the
  \<^verbatim>\<open>Infinity\<close> the loop starts with.
\<close>

definition minDistance :: "FireMap \<Rightarrow> real \<Rightarrow> real \<Rightarrow> real option" where
  "minDistance fs x z =
     fold (\<lambda>e m. let distance = sqrt ((x - fx (snd e))\<^sup>2 + (z - fz (snd e))\<^sup>2)
                  in Some (case m of None \<Rightarrow> distance | Some d \<Rightarrow> min d distance)) fs None"

text \<open>
  Lines 353-373: the placement loop, at most 100 attempts. It returns whether a position
  was found, the last position tried with its key, and the draw count.
\<close>

function placeFire ::
  "(nat \<Rightarrow> real) \<Rightarrow> FireMap \<Rightarrow> nat \<Rightarrow> nat \<Rightarrow> real \<times> real \<times> string \<Rightarrow> bool \<times> (real \<times> real \<times> string) \<times> nat"
where
  "placeFire rng fs attempts i cur =
     (if attempts < 100 then
        (let x = (rng i - 0.5) * (WORLD_SIZE - 10);
             z = (rng (i + 1) - 0.5) * (WORLD_SIZE - 10);
             key = gridKey x z;
             placed = (\<not> mapHas key fs \<and>
                       (length fs = 0 \<or> (case minDistance fs x z of None \<Rightarrow> True | Some d \<Rightarrow> d > 6)))
         in if placed then (True, (x, z, key), i + 2)
            else placeFire rng fs (attempts + 1) (i + 2) (x, z, key))
      else (False, cur, i))"
  by pat_completeness auto
termination
  by (relation "measure (\<lambda>(rng, fs, attempts, i, cur). 100 - attempts)") auto

declare placeFire.simps [simp del]

text \<open>
  Lines 346-447: one round of the loop over the initial fires. The 300 particles of the
  new mesh take five draws each.
\<close>

definition initFire :: "(nat \<Rightarrow> real) \<Rightarrow> FireMap \<times> nat \<Rightarrow> FireMap \<times> nat" where
  "initFire rng s =
     (let fs = fst s; i = snd s;
          x0 = (rng i - 0.5) * (WORLD_SIZE - 10);
          z0 = (rng (i + 1) - 0.5) * (WORLD_SIZE - 10);
          l = placeFire rng fs 0 (i + 2) (x0, z0, gridKey x0 z0);
          placed = fst l; i1 = snd (snd l);
          xf = (rng i1 - 0.5) * (WORLD_SIZE - 10);
          zf = (rng (i1 + 1) - 0.5) * (WORLD_SIZE - 10);
          x = (if \<not> placed then xf else fst (fst (snd l)));
          z = (if \<not> placed then zf else fst (snd (fst (snd l))));
          key = (if \<not> placed then gridKey xf zf else snd (snd (fst (snd l))));
          i2 = (if \<not> placed then i1 + 2 else i1);
          particleCount = 300;
          fireIntensity = rng i2 * 0.5 + 0.5
      in (mapSet key \<lparr>fx = snap x, fz = snap z, intensity = fireIntensity, spreadTime = 0,
                      mesh = Some particleCount\<rparr> fs,
          i2 + 1 + particleCount * 5))"

fun initLoop :: "nat \<Rightarrow> (nat \<Rightarrow> real) \<Rightarrow> FireMap \<times> nat \<Rightarrow> FireMap \<times> nat" where
  "initLoop 0 rng s = s"
| "initLoop (Suc n) rng s = initLoop n rng (initFire rng s)"

definition initializeFires :: "Refs \<Rightarrow> (nat \<Rightarrow> real) \<Rightarrow> nat \<Rightarrow> FireMap \<times> nat" where
  "initializeFires r rng i =
     (if \<not> sceneRef r then ([], i) else initLoop INITIAL_FIRES rng ([], i))"

section \<open>updateFires\<close>

text \<open>
  Line 658: \<^verbatim>\<open>fire.spreadTime > FIRE_SPREAD_RATE / gameState.gameSpeed\<close>. With a game speed
  of zero the quotient is \<^verbatim>\<open>Infinity\<close> in JavaScript and the test fails.
\<close>

definition spreadDue :: "GameState \<Rightarrow> FireCell \<Rightarrow> bool" where
  "spreadDue g fire = (gameSpeed g \<noteq> 0 \<and> spreadTime fire > FIRE_SPREAD_RATE / gameSpeed g)"

definition directions :: "(real \<times> real) list" where
  "directions = [(GRID_SIZE, 0), (- GRID_SIZE, 0), (0, GRID_SIZE), (0, - GRID_SIZE)]"

text \<open>
  Lines 670-746: the loop over the directions. Each direction draws once; a new cell
  costs five more draws for each of its 250 particles.
\<close>

fun spreadLoop ::
  "GameState \<Rightarrow> (nat \<Rightarrow> real) \<Rightarrow> FireCell \<Rightarrow> real \<Rightarrow> (real \<times> real) list \<Rightarrow> FireMap \<times> nat \<Rightarrow> FireMap \<times> nat"
where
  "spreadLoop g rng fire spreadChance [] s = s"
| "spreadLoop g rng fire spreadChance (dir # ds) s =
     (let newFires = fst s; i = snd s
      in if rng i < spreadChance then
           (let newX = fx fire + fst dir + vx (windDirection g) * GRID_SIZE;
                newZ = fz fire + snd dir + vz (windDirection g) * GRID_SIZE;
                newKey = gridKey newX newZ;
                halfWorld = WORLD_SIZE / 2
            in if \<bar>newX\<bar> < halfWorld \<and> \<bar>newZ\<bar> < halfWorld \<and> \<not> mapHas newKey newFires then
                 (let particleCount = 250; fireIntensity = 0.3
                  in spreadLoop g rng fire spreadChance ds
                       (mapSet newKey \<lparr>fx = snap newX, fz = snap newZ, intensity = fireIntensity,
                                        spreadTime = 0, mesh = Some particleCount\<rparr> newFires,
                        i + 1 + particleCount * 5))
               else spreadLoop g rng fire spreadChance ds (newFires, i + 1))
         else spreadLoop g rng fire spreadChance ds (newFires, i + 1))"

text \<open>
  Lines 636-747: the body of the loop over the map, for the entry at place \<open>n\<close> of the
  iteration. The cell is an object changed in place, so its entry keeps its key and
  place. A cell with a mesh draws once for each particle of the mesh.
\<close>

definition updateFire ::
  "GameState \<Rightarrow> (nat \<Rightarrow> real) \<Rightarrow> real \<Rightarrow> nat \<Rightarrow> FireMap \<times> nat \<Rightarrow> FireMap \<times> nat"
where
  "updateFire g rng deltaTime n s =
     (let newFires = fst s; i = snd s;
          key = fst (newFires ! n); fire = snd (newFires ! n);
          fire1 = fire\<lparr>spreadTime := spreadTime fire + deltaTime\<rparr>;
          fire2 = fire1\<lparr>intensity := min 1 (intensity fire1 + deltaTime * 0.1)\<rparr>;
          i1 = (case mesh fire2 of None \<Rightarrow> i | Some particles \<Rightarrow> i + particles)
      in if spreadDue g fire2 then
           (let fire3 = fire2\<lparr>spreadTime := 0\<rparr>;
                spreadChance = intensity fire3 * windSpeed g * 0.2
            in spreadLoop g rng fire3 spreadChance directions (newFires[n := (key, fire3)], i1))
         else (newFires[n := (key, fire2)], i1))"

text \<open>
  The loop below ends because a new cell needs a key that is inside the world and not
  yet in the map: there are 20 by 20 such keys. \<open>slack\<close> counts the keys still free
  plus the entries of the map; a round of the loop leaves it as it is.
\<close>

definition validKeys :: "string set" where
  "validKeys = (\<lambda>(a, b). showInt a @ ''-'' @ showInt b) ` ({-10..9} \<times> {-10..9})"

definition slack :: "FireMap \<Rightarrow> nat" where
  "slack m = card (validKeys - fst ` set m) + length m"

lemma finite_validKeys: "finite validKeys"
  by (simp add: validKeys_def)

lemma floor_half_range: "\<bar>x\<bar> < WORLD_SIZE / 2 \<Longrightarrow> \<lfloor>x / GRID_SIZE\<rfloor> \<in> {-10..9}"
proof -
  assume "\<bar>x\<bar> < WORLD_SIZE / 2"
  then have "- 10 < x / 2" and "x / 2 < 10" by (auto simp: WORLD_SIZE_def)
  then have "- 10 \<le> \<lfloor>x / 2\<rfloor>" and "\<lfloor>x / 2\<rfloor> < 10" by (simp_all add: le_floor_iff floor_less_iff)
  then show ?thesis by (simp add: GRID_SIZE_def)
qed

lemma gridKey_valid:
  "\<bar>x\<bar> < WORLD_SIZE / 2 \<Longrightarrow> \<bar>z\<bar> < WORLD_SIZE / 2 \<Longrightarrow> gridKey x z \<in> validKeys"
proof -
  assume "\<bar>x\<bar> < WORLD_SIZE / 2" and "\<bar>z\<bar> < WORLD_SIZE / 2"
  then have "(\<lfloor>x / GRID_SIZE\<rfloor>, \<lfloor>z / GRID_SIZE\<rfloor>) \<in> {-10..9} \<times> {-10..9}"
    using floor_half_range by blast
  then show ?thesis
    unfolding validKeys_def gridKey_def by (rule rev_image_eqI) simp
qed

lemma mapSet_new: "\<not> mapHas k m \<Longrightarrow> mapSet k v m = m @ [(k, v)]"
  by (induction m) (auto simp: mapHas_def)

lemma slack_insert:
  assumes "k \<in> validKeys" and "\<not> mapHas k m"
  shows "slack (mapSet k v m) = slack m"
proof -
  have k: "k \<in> validKeys - fst ` set m" using assms by (simp add: mapHas_def)
  have "validKeys - fst ` set (m @ [(k, v)]) = (validKeys - fst ` set m) - {k}" by auto
  then have "card (validKeys - fst ` set (m @ [(k, v)])) = card (validKeys - fst ` set m) - 1"
    using k finite_validKeys by (simp add: card_Diff_singleton)
  moreover have "card (validKeys - fst ` set m) > 0"
    using k finite_validKeys by (metis card_gt_0_iff empty_iff finite_Diff)
  ultimately show ?thesis
    by (simp add: slack_def mapSet_new [OF assms(2)])
qed

lemma spreadLoop_slack:
  "slack (fst (spreadLoop g rng fire c ds s)) = slack (fst s)"
  by (induction ds arbitrary: s) (simp_all add: Let_def slack_insert gridKey_valid)

lemma length_mapSet: "length m \<le> length (mapSet k v m)"
  by (induction m) auto

lemma spreadLoop_length:
  "length (fst s) \<le> length (fst (spreadLoop g rng fire c ds s))"
proof (induction ds arbitrary: s)
  case Nil
  then show ?case by simp
next
  case (Cons dir ds)
  have "length (fst s) \<le> length (fst s') \<Longrightarrow>
        length (fst s) \<le> length (fst (spreadLoop g rng fire c ds s'))" for s'
    using Cons.IH [of s'] by simp
  then show ?case by (simp add: Let_def length_mapSet)
qed

lemma slack_update: "n < length m \<Longrightarrow> slack (m[n := (fst (m ! n), v)]) = slack m"
proof -
  assume "n < length m"
  then have "map fst (m[n := (fst (m ! n), v)]) = map fst m"
    by (simp add: map_update list_update_same_conv)
  then have "fst ` set (m[n := (fst (m ! n), v)]) = fst ` set m"
    by (metis set_map)
  then show ?thesis by (simp add: slack_def)
qed

lemma updateFire_slack:
  "n < length (fst s) \<Longrightarrow> slack (fst (updateFire g rng dt n s)) = slack (fst s)"
  by (simp add: updateFire_def Let_def spreadLoop_slack slack_update)

lemma updateFire_length:
  "length (fst s) \<le> length (fst (updateFire g rng dt n s))"
  using spreadLoop_length [of "(x, y)" for x y]
  by (simp add: updateFire_def Let_def) (metis fst_conv length_list_update)

function updateLoop ::
  "GameState \<Rightarrow> (nat \<Rightarrow> real) \<Rightarrow> real \<Rightarrow> nat \<Rightarrow> FireMap \<times> nat \<Rightarrow> FireMap \<times> nat"
where
  "updateLoop g rng deltaTime n s =
     (if n < length (fst s) then updateLoop g rng deltaTime (n + 1) (updateFire g rng deltaTime n s)
      else s)"
  by pat_completeness auto
termination
proof (relation "measure (\<lambda>(g, rng, deltaTime, n, s). slack (fst s) - n)")
  show "wf (measure (\<lambda>(g, rng, deltaTime, n, s). slack (fst s) - n))" by simp
next
  fix g :: GameState and rng :: "nat \<Rightarrow> real" and deltaTime :: real and n :: nat
    and s :: "FireMap \<times> nat"
  assume n: "n < length (fst s)"
  have "length (fst s) \<le> slack (fst s)" by (simp add: slack_def)
  with n show "((g, rng, deltaTime, n + 1, updateFire g rng deltaTime n s), (g, rng, deltaTime, n, s))
      \<in> measure (\<lambda>(g, rng, deltaTime, n, s). slack (fst s) - n)"
    by (simp add: updateFire_slack)
qed

declare updateLoop.simps [simp del]

text \<open>
  Lines 629-750: \<^verbatim>\<open>updateFires\<close> copies the map and walks the copy. The walk meets the
  cells that it adds, so it is a loop on the place \<open>n\<close> in the growing list; it ends
  when the place runs past the end.
\<close>

definition updateFires ::
  "GameState \<Rightarrow> Refs \<Rightarrow> (nat \<Rightarrow> real) \<Rightarrow> nat \<Rightarrow> FireMap \<Rightarrow> real \<Rightarrow> FireMap \<times> nat"
where
  "updateFires g r rng i fs deltaTime =
     (if \<not> sceneRef r then (fs, i) else updateLoop g rng deltaTime 0 (fs, i))"

section \<open>checkWaterFireCollision\<close>

text \<open>Lines 764-779: is the cell in range and inside the cone of the water jet?\<close>

definition inWaterCone :: "Player \<Rightarrow> FireCell \<Rightarrow> bool" where
  "inWaterCone pl fire =
     (let firePos = \<lparr>vx = fx fire, vy = 0, vz = fz fire\<rparr>;
          distToFire = distance3D (position pl) firePos
      in if distToFire < WATER_RANGE then
           (let dirToFire = normalize3D \<lparr>vx = vx firePos - vx (position pl), vy = 0,
                                         vz = vz firePos - vz (position pl)\<rparr>;
                waterDirection = \<lparr>vx = sin (rotation pl), vy = 0, vz = - cos (rotation pl)\<rparr>;
                dotProduct = vx dirToFire * vx waterDirection + vz dirToFire * vz waterDirection
            in dotProduct > 0.4)
         else False)"

text \<open>
  Lines 760-805: the loop over the map. A cell in the cone loses intensity in place; at
  zero or below its entry is deleted, which does not disturb the walk over the others.
\<close>

fun suppressLoop :: "Player \<Rightarrow> real \<Rightarrow> FireMap \<Rightarrow> FireMap" where
  "suppressLoop pl deltaTime [] = []"
| "suppressLoop pl deltaTime (e # es) =
     (let key = fst e; fire = snd e
      in if inWaterCone pl fire then
           (let fire1 = fire\<lparr>intensity := intensity fire - 1.5 * deltaTime\<rparr>
            in if intensity fire1 \<le> 0 then suppressLoop pl deltaTime es
               else (key, fire1) # suppressLoop pl deltaTime es)
         else e # suppressLoop pl deltaTime es)"

definition checkWaterFireCollision :: "Refs \<Rightarrow> Player \<Rightarrow> FireMap \<Rightarrow> real \<Rightarrow> FireMap" where
  "checkWaterFireCollision r pl fs deltaTime =
     (if \<not> sceneRef r then fs
      else if '' '' \<in> keysRef r \<and> waterLevel pl > 0 then suppressLoop pl deltaTime fs
      else fs)"

section \<open>checkGameConditions\<close>

text \<open>Lines 814-819: the loop that returns at the first fire closer than 1.5.\<close>

fun fireTooClose :: "Player \<Rightarrow> FireMap \<Rightarrow> bool" where
  "fireTooClose pl [] = False"
| "fireTooClose pl (e # es) =
     (let firePos = \<lparr>vx = fx (snd e), vy = 0, vz = fz (snd e)\<rparr>
      in if distance3D (position pl) firePos < 1.5 then True else fireTooClose pl es)"

definition checkGameConditions :: "Player \<Rightarrow> FireMap \<Rightarrow> GameStatus" where
  "checkGameConditions pl fs =
     (if fireTooClose pl fs then Lost
      else if length fs = 0 then Won
      else Playing)"

section \<open>gameLoop\<close>

text \<open>
  Lines 891-930. \<open>g\<close> is the state the callback closed over (the functions called read
  the trees, the stations, the wind and the game speed from it), \<open>prevState\<close> the state
  handed to the updater. The result is the new state, the draw count and the refs.
\<close>

definition gameLoop ::
  "GameState \<Rightarrow> Refs \<Rightarrow> (nat \<Rightarrow> real) \<Rightarrow> nat \<Rightarrow> real \<Rightarrow> GameState \<Rightarrow> GameState \<times> nat \<times> Refs"
where
  "gameLoop g r rng i currentTime prevState =
     (let deltaTime = (currentTime - lastFrameTimeRef r) / 1000;
          r1 = r\<lparr>lastFrameTimeRef := currentTime\<rparr>
      in if gameStatus g = Playing then
           (let updatedPlayer = updatePlayer g (keysRef r) (player prevState) deltaTime;
                i1 = i + updatePlayerDraws r (player prevState);
                u = updateFires g r rng i1 (fires prevState) deltaTime;
                updatedFires = checkWaterFireCollision r updatedPlayer (fst u) deltaTime;
                newGameStatus = checkGameConditions updatedPlayer updatedFires
            in (prevState\<lparr>player := updatedPlayer,
                           fires := updatedFires,
                           gameStatus := newGameStatus,
                           timeElapsed := timeElapsed prevState + deltaTime,
                           gameSpeed := min 1.8 (1 + timeElapsed prevState / 90)\<rparr>,
                snd u, r1))
         else (prevState, i, r1))"

section \<open>startGame, generateTrees and resetGame\<close>

definition startGame :: "Refs \<Rightarrow> (nat \<Rightarrow> real) \<Rightarrow> nat \<Rightarrow> GameState \<Rightarrow> GameState \<times> nat" where
  "startGame r rng i prevState =
     (let f = initializeFires r rng i
      in (prevState\<lparr>gameStatus := Playing,
                     fires := fst f,
                     player := (player prevState)\<lparr>position := \<lparr>vx = 0, vy = 0, vz = 0\<rparr>,
                                                   rotation := 0,
                                                   waterLevel := 100,
                                                   isRefilling := False\<rparr>,
                     timeElapsed := 0,
                     gameSpeed := 1\<rparr>,
          snd f))"

text \<open>
  Lines 309-333: up to 200 attempts to place one tree. An attempt draws x, z and the
  radius; a tree is pushed only when the position is clear of the stations, the centre
  and the other trees. After 200 failures the list is returned as it was.
\<close>

function placeTree ::
  "RefillStation list \<Rightarrow> (nat \<Rightarrow> real) \<Rightarrow> Tree list \<Rightarrow> nat \<Rightarrow> nat \<Rightarrow> Tree list \<times> nat"
where
  "placeTree stations rng ts attempts i =
     (if attempts < 200 then
        (let x = (rng i - 0.5) * (WORLD_SIZE - 5);
             z = (rng (i + 1) - 0.5) * (WORLD_SIZE - 5);
             nearStation = list_ex (\<lambda>station. sqrt ((x - vx (sposition station))\<^sup>2 +
                                     (z - vz (sposition station))\<^sup>2) < 5) stations;
             nearCenter = (sqrt (x\<^sup>2 + z\<^sup>2) < 8);
             treeRadius = rng (i + 2) * 0.8 + 1;
             nearOtherTree = list_ex (\<lambda>tree. sqrt ((x - tx tree)\<^sup>2 + (z - tz tree)\<^sup>2)
                                       < tradius tree + treeRadius + 1) ts
         in if \<not> nearStation \<and> \<not> nearCenter \<and> \<not> nearOtherTree
            then (ts @ [\<lparr>tx = x, tz = z, tradius = treeRadius * 0.8\<rparr>], i + 3)
            else placeTree stations rng ts (attempts + 1) (i + 3))
      else (ts, i))"
  by pat_completeness auto
termination
  by (relation "measure (\<lambda>(stations, rng, ts, attempts, i). 200 - attempts)") auto

declare placeTree.simps [simp del]

text \<open>Line 305: \<^verbatim>\<open>for (let i = 0; i < 40 && trees.length < 40; i++)\<close>, counter \<open>n\<close>.\<close>

function generateTreesLoop ::
  "RefillStation list \<Rightarrow> (nat \<Rightarrow> real) \<Rightarrow> nat \<Rightarrow> Tree list \<times> nat \<Rightarrow> Tree list \<times> nat"
where
  "generateTreesLoop stations rng n s =
     (if n < 40 \<and> length (fst s) < 40
      then generateTreesLoop stations rng (n + 1) (placeTree stations rng (fst s) 0 (snd s))
      else s)"
  by pat_completeness auto
termination
  by (relation "measure (\<lambda>(stations, rng, n, s). 40 - n)") auto

declare generateTreesLoop.simps [simp del]

definition generateTrees :: "RefillStation list \<Rightarrow> (nat \<Rightarrow> real) \<Rightarrow> nat \<Rightarrow> Tree list \<times> nat" where
  "generateTrees stations rng i = generateTreesLoop stations rng 0 ([], i)"

text \<open>
  Lines 844-888 and 953-984: \<^verbatim>\<open>resetGame\<close> replaces the trees (when there is a scene;
  each new tree draws once more, for its height) and starts the game.
\<close>

definition regenerateTrees ::
  "GameState \<Rightarrow> Refs \<Rightarrow> (nat \<Rightarrow> real) \<Rightarrow> nat \<Rightarrow> GameState \<Rightarrow> GameState \<times> nat"
where
  "regenerateTrees g r rng i prevState =
     (if \<not> sceneRef r then (prevState, i)
      else (let t = generateTrees (refillStations g) rng i
            in (prevState\<lparr>trees := fst t\<rparr>, snd t + length (fst t))))"

definition resetGame ::
  "GameState \<Rightarrow> Refs \<Rightarrow> (nat \<Rightarrow> real) \<Rightarrow> nat \<Rightarrow> GameState \<Rightarrow> GameState \<times> nat"
where
  "resetGame g r rng i prevState =
     (let t = regenerateTrees g r rng i prevState in startGame r rng (snd t) (fst t))"


text \<open>The state held by \<^verbatim>\<open>useState\<close> when the component mounts (lines 118-139).\<close>

definition initialGameState :: GameState where
  "initialGameState =
     \<lparr>player = \<lparr>position = \<lparr>vx = 0, vy = 0, vz = 0\<rparr>, rotation = 0, waterLevel = 100,
                 maxWater = 100, isRefilling = False\<rparr>,
      fires = [],
      refillStations =
        [\<lparr>sposition = \<lparr>vx = -15, vy = 0, vz = -15\<rparr>, sradius = 3\<rparr>,
         \<lparr>sposition = \<lparr>vx = 15, vy = 0, vz = -15\<rparr>, sradius = 3\<rparr>,
         \<lparr>sposition = \<lparr>vx = -15, vy = 0, vz = 15\<rparr>, sradius = 3\<rparr>,
         \<lparr>sposition = \<lparr>vx = 15, vy = 0, vz = 15\<rparr>, sradius = 3\<rparr>],
      gameStatus = Tutorial,
      windDirection = \<lparr>vx = 0.7, vy = 0, vz = 0.3\<rparr>,
      windSpeed = 1.2,
      timeElapsed = 0,
      gameSpeed = 1,
      trees = []\<rparr>"

text \<open>Concrete players and scenes for the worked examples.\<close>

definition originPlayer :: Player where
  "originPlayer = \<lparr>position = \<lparr>vx = 0, vy = 0, vz = 0\<rparr>, rotation = 0, waterLevel = 100,
                    maxWater = 100, isRefilling = False\<rparr>"

definition treeScene :: "Tree list \<Rightarrow> GameState" where
  "treeScene ts = initialGameState\<lparr>gameStatus := Playing, trees := ts\<rparr>"

definition idleRefs :: Refs where
  "idleRefs = \<lparr>keysRef = {}, sceneRef = True, waterParticlesRef = True, lastFrameTimeRef = 0\<rparr>"

definition shootRefs :: Refs where
  "shootRefs = \<lparr>keysRef = {'' ''}, sceneRef = True, waterParticlesRef = True, lastFrameTimeRef = 0\<rparr>"

definition oneFire :: "real \<Rightarrow> FireMap" where
  "oneFire v = [(''0--2'', \<lparr>fx = 0, fz = -4, intensity = v, spreadTime = 0, mesh = Some 300\<rparr>)]"

text \<open>Two constant random sources: every draw is 1/2, or every draw is 0.\<close>

definition rngHalf :: "nat \<Rightarrow> real" where
  "rngHalf n = 1 / 2"

definition sceneD :: GameState where
  "sceneD = (treeScene [])\<lparr>fires := oneFire 0.05\<rparr>"

text \<open>
  One spread attempt in the words of the specification: a direction draws one random
  value; it succeeds when the draw is below the chance, the wind-shifted target lies
  strictly inside the world and no cell holds the key of the target; a success appends a
  cell of intensity 0.3 (and spends the 1250 draws of its particles). It is compared with
  the loop of lines 670-746 below.
\<close>

definition specSpreadAttempt ::
  "GameState \<Rightarrow> (nat \<Rightarrow> real) \<Rightarrow> FireCell \<Rightarrow> real \<Rightarrow> real \<times> real \<Rightarrow> FireMap \<times> nat \<Rightarrow> FireMap \<times> nat"
where
  "specSpreadAttempt g rng fire chance dir s =
     (let newX = fx fire + fst dir + vx (windDirection g) * GRID_SIZE;
          newZ = fz fire + snd dir + vz (windDirection g) * GRID_SIZE;
          newKey = gridKey newX newZ
      in if rng (snd s) < chance \<and> \<bar>newX\<bar> < WORLD_SIZE / 2 \<and> \<bar>newZ\<bar> < WORLD_SIZE / 2 \<and>
            newKey \<notin> fst ` set (fst s)
         then (fst s @ [(newKey, \<lparr>fx = snap newX, fz = snap newZ, intensity = 0.3,
                                   spreadTime = 0, mesh = Some 250\<rparr>)],
               snd s + 1 + 1250)
         else (fst s, snd s + 1))"

text \<open>
  The first \<open>k\<close> rounds of the loop over the map: round \<open>k\<close> is the body of the loop for
  the entry at place \<open>k\<close> of the map as the earlier rounds left it.
\<close>

fun rounds ::
  "GameState \<Rightarrow> (nat \<Rightarrow> real) \<Rightarrow> real \<Rightarrow> nat \<Rightarrow> FireMap \<times> nat \<Rightarrow> FireMap \<times> nat"
where
  "rounds g rng deltaTime 0 s = s"
| "rounds g rng deltaTime (Suc k) s = updateFire g rng deltaTime k (rounds g rng deltaTime k s)"

text \<open>
  What its own round does to a cell (lines 636-637 and 658-659): the timer and the
  intensity grow, and the timer goes back to 0 when the spread is due.
\<close>

definition tickCell :: "GameState \<Rightarrow> real \<Rightarrow> FireCell \<Rightarrow> FireCell" where
  "tickCell g deltaTime fire =
     (let fire2 = fire\<lparr>spreadTime := spreadTime fire + deltaTime,
                        intensity := min 1 (intensity fire + deltaTime * 0.1)\<rparr>
      in if spreadDue g fire2 then fire2\<lparr>spreadTime := 0\<rparr> else fire2)"

text \<open>
  Names for parts of the spread loop, used to state its properties: the target of a
  direction (lines 672-673), the bounds test (line 677) and the new cell (lines 737-743).
\<close>

definition spreadTarget :: "GameState \<Rightarrow> FireCell \<Rightarrow> real \<times> real \<Rightarrow> real \<times> real" where
  "spreadTarget g fire dir =
     (fx fire + fst dir + vx (windDirection g) * GRID_SIZE,
      fz fire + snd dir + vz (windDirection g) * GRID_SIZE)"

definition inWorld :: "real \<times> real \<Rightarrow> bool" where
  "inWorld p = (\<bar>fst p\<bar> < WORLD_SIZE / 2 \<and> \<bar>snd p\<bar> < WORLD_SIZE / 2)"

definition spreadCell :: "real \<times> real \<Rightarrow> FireCell" where
  "spreadCell p = \<lparr>fx = snap (fst p), fz = snap (snd p), intensity = 0.3, spreadTime = 0,
                   mesh = Some 250\<rparr>"

definition rngZero :: "nat \<Rightarrow> real" where
  "rngZero n = 0"

definition dueFire :: FireMap where
  "dueFire = [(''0--2'', \<lparr>fx = 0, fz = -4, intensity = 0.5, spreadTime = 3.95, mesh = Some 300\<rparr>)]"

definition centreFire :: FireMap where
  "centreFire = [(''0-0'', \<lparr>fx = 0, fz = 0, intensity = 0.75, spreadTime = 0, mesh = Some 300\<rparr>)]"

text \<open>
  What the tests of lines 314-319 leave of a placed tree: it is at least 8 from the
  centre and at least 5 from every station.
\<close>

definition clearOf :: "RefillStation list \<Rightarrow> Tree \<Rightarrow> bool" where
  "clearOf stations t =
     (8 \<le> sqrt ((tx t)\<^sup>2 + (tz t)\<^sup>2) \<and>
      (\<forall>station\<in>set stations.
          5 \<le> sqrt ((tx t - vx (sposition station))\<^sup>2 + (tz t - vz (sposition station))\<^sup>2)))"

definition rngSeven :: "nat \<Rightarrow> real" where
  "rngSeven n = 7 / 10"

definition treeSeven :: Tree where
  "treeSeven = \<lparr>tx = 7, tz = 7, tradius = 1.248\<rparr>"

definition lateRefs :: "string set \<Rightarrow> Refs" where
  "lateRefs ks = \<lparr>keysRef = ks, sceneRef = True, waterParticlesRef = True,
                  lastFrameTimeRef = 10000\<rparr>"

definition sceneA :: GameState where
  "sceneA = (treeScene [])\<lparr>fires := oneFire 0.5\<rparr>"

definition startState :: GameState where
  "startState = fst (startGame shootRefs rngHalf 0 initialGameState)"

section \<open>Properties of updatePlayer\<close>

lemma sqrt_less_iff: "0 < b \<Longrightarrow> sqrt a < b \<longleftrightarrow> a < b\<^sup>2"
  using real_sqrt_less_iff [of a "b\<^sup>2"] by simp

lemma refillLoop_position [simp]: "position (refillLoop ss pl dt) = position pl"
  by (induction ss) auto

lemma refillLoop_rotation [simp]: "rotation (refillLoop ss pl dt) = rotation pl"
  by (induction ss) auto

lemma collideTrees_trunk:
  "fst (collideTrees ts newX newZ b) \<longleftrightarrow>
     (\<exists>t\<in>set ts. sqrt ((newX - tx t)\<^sup>2 + (newZ - tz t)\<^sup>2) < 0.4 + 1)"
  by (induction ts arbitrary: b) (auto simp: Let_def)

lemma collideTrees_foliage:
  "\<not> fst (collideTrees ts newX newZ b) \<Longrightarrow>
   snd (collideTrees ts newX newZ b) \<longleftrightarrow>
     (b \<or> (\<exists>t\<in>set ts. sqrt ((newX - tx t)\<^sup>2 + (newZ - tz t)\<^sup>2) < tradius t + 1))"
  by (induction ts arbitrary: b) (auto simp: Let_def split: if_splits)

lemma updatePlayer_position:
  "position (updatePlayer g ks pl dt) =
     movePlayer g ks (position pl) (turn ks (rotation pl) dt) dt"
  by (simp add: updatePlayer_def Let_def)

lemma updatePlayer_rotation:
  "rotation (updatePlayer g ks pl dt) = turn ks (rotation pl) dt"
  by (simp add: updatePlayer_def Let_def)

lemma moveVector_none:
  "''w'' \<notin> ks \<Longrightarrow> ''s'' \<notin> ks \<Longrightarrow> ''a'' \<notin> ks \<Longrightarrow> ''d'' \<notin> ks \<Longrightarrow> moveVector ks = (0, 0)"
  by (simp add: moveVector_def)

lemma clampWorld_id: "\<bar>v\<bar> \<le> 18 \<Longrightarrow> clampWorld v = v"
  by (simp add: clampWorld_def WORLD_SIZE_def Let_def)

lemma clampWorld_bounds: "\<bar>clampWorld v\<bar> \<le> WORLD_SIZE / 2 - 2"
  by (simp add: clampWorld_def WORLD_SIZE_def Let_def)

text \<open>
  C10. When none of the movement keys w, s, a, d is pressed, updatePlayer returns the
  player at exactly the position it had: the movement block, and with it the clamp to the
  world bounds, is skipped. The heading, the water level and the refilling flag may
  still change on such a tick.
\<close>

theorem updatePlayer_no_movement_keeps_position:
  assumes "''w'' \<notin> ks" and "''s'' \<notin> ks" and "''a'' \<notin> ks" and "''d'' \<notin> ks"
  shows "position (updatePlayer g ks pl dt) = position pl"
  using moveVector_none [OF assms]
  by (simp add: updatePlayer_position movePlayer_def Let_def)

text \<open>
  A player standing outside the world bounds (x = 25), turning left and shooting for one
  second: the position stays at x = 25, unclamped, while the heading and the water
  level change.
\<close>

theorem updatePlayer_no_movement_witness:
  "''w'' \<notin> {''arrowleft'', '' ''} \<and> ''s'' \<notin> {''arrowleft'', '' ''} \<and>
   ''a'' \<notin> {''arrowleft'', '' ''} \<and> ''d'' \<notin> {''arrowleft'', '' ''} \<and>
   position (updatePlayer initialGameState {''arrowleft'', '' ''}
     \<lparr>position = \<lparr>vx = 25, vy = 0, vz = 0\<rparr>, rotation = 0, waterLevel = 100,
      maxWater = 100, isRefilling = False\<rparr> 1) = \<lparr>vx = 25, vy = 0, vz = 0\<rparr> \<and>
   rotation (updatePlayer initialGameState {''arrowleft'', '' ''}
     \<lparr>position = \<lparr>vx = 25, vy = 0, vz = 0\<rparr>, rotation = 0, waterLevel = 100,
      maxWater = 100, isRefilling = False\<rparr> 1) = 1.92 \<and>
   waterLevel (updatePlayer initialGameState {''arrowleft'', '' ''}
     \<lparr>position = \<lparr>vx = 25, vy = 0, vz = 0\<rparr>, rotation = 0, waterLevel = 100,
      maxWater = 100, isRefilling = False\<rparr> 1) = 70"
  using updatePlayer_no_movement_keeps_position
    [of "{''arrowleft'', '' ''}" initialGameState
        "\<lparr>position = \<lparr>vx = 25, vy = 0, vz = 0\<rparr>, rotation = 0, waterLevel = 100,
          maxWater = 100, isRefilling = False\<rparr>" 1]
  by (simp add: updatePlayer_def turn_def movePlayer_def moveVector_def initialGameState_def
        distance3D_def sqrt_less_iff Let_def)

text \<open>
  C7. On a tick with a movement key, the candidate position (newX, newZ) is the old
  position plus the rotated unit move vector times the base speed 5 times deltaTime,
  with the heading already turned. If the candidate is closer than 0.4 + 1 to some tree
  centre, the movement is blocked: only the clamp to the world bounds is applied, so a
  player inside the bounds keeps its position, and the heading is the turned one. If it
  is outside every trunk zone but closer than radius + 1 to some tree, the player moves
  at half the base speed; otherwise it moves to the candidate. The result is clamped to
  the world bounds in each case.
\<close>

theorem updatePlayer_tree_collision:
  fixes g :: GameState and ks :: "string set" and pl :: Player and dt :: real
  defines "rot \<equiv> turn ks (rotation pl) dt"
  defines "r \<equiv> rotatedMove (moveVector ks) rot"
  defines "newX \<equiv> vx (position pl) + fst r * 5 * dt"
  defines "newZ \<equiv> vz (position pl) + snd r * 5 * dt"
  defines "trunk \<equiv> \<exists>t\<in>set (trees g). sqrt ((newX - tx t)\<^sup>2 + (newZ - tz t)\<^sup>2) < 0.4 + 1"
  defines "foliage \<equiv> \<exists>t\<in>set (trees g). sqrt ((newX - tx t)\<^sup>2 + (newZ - tz t)\<^sup>2) < tradius t + 1"
  defines "pl' \<equiv> updatePlayer g ks pl dt"
  assumes moving: "moveVector ks \<noteq> (0, 0)"
  shows "rotation pl' = rot \<and>
    (trunk \<longrightarrow>
       position pl' = (position pl)\<lparr>vx := clampWorld (vx (position pl)),
                                     vz := clampWorld (vz (position pl))\<rparr> \<and>
       (\<bar>vx (position pl)\<bar> \<le> 18 \<and> \<bar>vz (position pl)\<bar> \<le> 18 \<longrightarrow> position pl' = position pl)) \<and>
    (\<not> trunk \<and> foliage \<longrightarrow>
       position pl' = (position pl)\<lparr>vx := clampWorld (vx (position pl) + fst r * (5 * 0.5) * dt),
                                     vz := clampWorld (vz (position pl) + snd r * (5 * 0.5) * dt)\<rparr>) \<and>
    (\<not> trunk \<and> \<not> foliage \<longrightarrow>
       position pl' = (position pl)\<lparr>vx := clampWorld newX, vz := clampWorld newZ\<rparr>)"
proof -
  have mv: "fst (moveVector ks) \<noteq> 0 \<or> snd (moveVector ks) \<noteq> 0"
    using moving by (cases "moveVector ks") auto
  have t: "fst (collideTrees (trees g) newX newZ False) = trunk"
    unfolding trunk_def by (rule collideTrees_trunk)
  have f: "\<not> trunk \<Longrightarrow> snd (collideTrees (trees g) newX newZ False) = foliage"
    unfolding foliage_def using collideTrees_foliage [of "trees g" newX newZ False] t by simp
  have pos: "position pl' = movePlayer g ks (position pl) rot dt"
    unfolding pl'_def rot_def by (rule updatePlayer_position)
  have mp: "movePlayer g ks (position pl) rot dt =
      (let c = collideTrees (trees g) newX newZ False;
           p1 = (if \<not> fst c then
                   (if snd c then (position pl)\<lparr>vx := vx (position pl) + fst r * (5 * 0.5) * dt,
                                   vz := vz (position pl) + snd r * (5 * 0.5) * dt\<rparr>
                    else (position pl)\<lparr>vx := newX, vz := newZ\<rparr>)
                 else position pl)
       in p1\<lparr>vx := clampWorld (vx p1), vz := clampWorld (vz p1)\<rparr>)"
    using mv unfolding movePlayer_def Let_def r_def newX_def newZ_def by simp
  have rot': "rotation pl' = rot"
    unfolding pl'_def rot_def by (rule updatePlayer_rotation)
  show ?thesis
    using rot' pos t f by (auto simp: mp Let_def clampWorld_id)
qed

lemma sqrt_one_less: "sqrt ((sin a)\<^sup>2 + (cos a)\<^sup>2) < 7/5"
  by simp

theorem updatePlayer_tree_collision_witness:
  "moveVector {''w'', ''arrowleft''} \<noteq> (0, 0) \<and>
   position (updatePlayer (treeScene [\<lparr>tx = 0, tz = 0, tradius = 1.2\<rparr>]) {''w'', ''arrowleft''}
               originPlayer 0.2) = position originPlayer \<and>
   rotation (updatePlayer (treeScene [\<lparr>tx = 0, tz = 0, tradius = 1.2\<rparr>]) {''w'', ''arrowleft''}
               originPlayer 0.2) = 0.384 \<and>
   position (updatePlayer (treeScene [\<lparr>tx = 0, tz = -4, tradius = 1.2\<rparr>]) {''w''}
               originPlayer 0.4) = \<lparr>vx = 0, vy = 0, vz = -1\<rparr> \<and>
   position (updatePlayer (treeScene []) {''w''} originPlayer 0.4) = \<lparr>vx = 0, vy = 0, vz = -2\<rparr>"
proof -
  have m1: "moveVector {''w'', ''arrowleft''} = (0, -1)" and m2: "moveVector {''w''} = (0, -1)"
    by (simp_all add: moveVector_def)
  have r: "rotatedMove (0, -1) a = (sin a, - cos a)" for a
    by (simp add: rotatedMove_def)
  have a: "position (updatePlayer (treeScene [\<lparr>tx = 0, tz = 0, tradius = 1.2\<rparr>]) {''w'', ''arrowleft''}
               originPlayer 0.2) = position originPlayer \<and>
   rotation (updatePlayer (treeScene [\<lparr>tx = 0, tz = 0, tradius = 1.2\<rparr>]) {''w'', ''arrowleft''}
               originPlayer 0.2) = 0.384"
    using updatePlayer_tree_collision
      [where g = "treeScene [\<lparr>tx = 0, tz = 0, tradius = 1.2\<rparr>]" and ks = "{''w'', ''arrowleft''}"
         and pl = originPlayer and dt = "0.2"]
    by (simp add: m1 r treeScene_def originPlayer_def turn_def sqrt_one_less clampWorld_def
          WORLD_SIZE_def)
  have b: "position (updatePlayer (treeScene [\<lparr>tx = 0, tz = -4, tradius = 1.2\<rparr>]) {''w''}
               originPlayer 0.4) = \<lparr>vx = 0, vy = 0, vz = -1\<rparr>"
    using updatePlayer_tree_collision
      [where g = "treeScene [\<lparr>tx = 0, tz = -4, tradius = 1.2\<rparr>]" and ks = "{''w''}"
         and pl = originPlayer and dt = "0.4"]
    by (simp add: m2 r treeScene_def originPlayer_def turn_def sqrt_less_iff clampWorld_def
          WORLD_SIZE_def power2_eq_square)
  have c: "position (updatePlayer (treeScene []) {''w''} originPlayer 0.4) = \<lparr>vx = 0, vy = 0, vz = -2\<rparr>"
    using updatePlayer_tree_collision
      [where g = "treeScene []" and ks = "{''w''}" and pl = originPlayer and dt = "0.4"]
    by (simp add: m2 r treeScene_def originPlayer_def turn_def clampWorld_def WORLD_SIZE_def)
  show ?thesis using a b c by (simp add: m1)
qed

section \<open>Properties of checkWaterFireCollision\<close>

lemma sqrt_16: "sqrt 16 = 4"
  by (rule real_sqrt_unique) simp_all

lemma suppressLoop_lookup:
  "distinct (map fst fs) \<Longrightarrow> (k, fire) \<in> set fs \<Longrightarrow>
   map_of (suppressLoop pl dt fs) k =
     (if inWaterCone pl fire
      then (if intensity fire - 1.5 * dt \<le> 0 then None
            else Some (fire\<lparr>intensity := intensity fire - 1.5 * dt\<rparr>))
      else Some fire)"
proof (induction fs)
  case Nil
  then show ?case by simp
next
  case (Cons e es)
  have keys: "fst ` set (suppressLoop pl dt es) \<subseteq> fst ` set es" for es
    by (induction es) (auto simp: Let_def)
  show ?case
  proof (cases "e = (k, fire)")
    case True
    then have "k \<notin> fst ` set es" using Cons.prems(1) by auto
    then have "map_of (suppressLoop pl dt es) k = None"
      using keys [of es] by (auto simp: map_of_eq_None_iff)
    with True show ?thesis by (simp add: Let_def)
  next
    case False
    then have mem: "(k, fire) \<in> set es" using Cons.prems(2) by simp
    then have "fst e \<noteq> k" using Cons.prems(1) by (auto simp: image_iff)
    moreover have "map_of (suppressLoop pl dt es) k =
     (if inWaterCone pl fire
      then (if intensity fire - 1.5 * dt \<le> 0 then None
            else Some (fire\<lparr>intensity := intensity fire - 1.5 * dt\<rparr>))
      else Some fire)"
      using Cons.IH mem Cons.prems(1) by simp
    ultimately show ?thesis by (simp add: Let_def)
  qed
qed

text \<open>
  C3. With a scene, the shoot key held and water left, a fire cell closer than 8 to the
  player, whose unit direction from the player has a dot product above 0.4 with the
  facing vector (sin rotation, -cos rotation), loses exactly 1.5 times deltaTime of
  intensity. Looking its key up afterwards gives nothing when the new intensity is zero
  or below, and the cell with the new intensity otherwise. The witness runs the two
  scenarios: a player at the origin aimed at one cell at (0, 0, -4), deltaTime 0.1;
  intensity 0.5 becomes 0.35 and the cell stays, intensity 0.05 drops to zero or below
  and the map is left empty.
\<close>

theorem checkWaterFireCollision_cone:
  fixes pl :: Player and fire :: FireCell
  defines "dirToFire \<equiv> normalize3D \<lparr>vx = fx fire - vx (position pl), vy = 0,
                                      vz = fz fire - vz (position pl)\<rparr>"
  assumes "sceneRef r" and "'' '' \<in> keysRef r" and "waterLevel pl > 0"
    and "distinct (map fst fs)" and "(k, fire) \<in> set fs"
    and "distance3D (position pl) \<lparr>vx = fx fire, vy = 0, vz = fz fire\<rparr> < 8"
    and "vx dirToFire * sin (rotation pl) + vz dirToFire * (- cos (rotation pl)) > 0.4"
  shows "map_of (checkWaterFireCollision r pl fs deltaTime) k =
           (if intensity fire - 1.5 * deltaTime \<le> 0 then None
            else Some (fire\<lparr>intensity := intensity fire - 1.5 * deltaTime\<rparr>))"
proof -
  have "inWaterCone pl fire"
    using assms(7,8) by (simp add: inWaterCone_def Let_def WATER_RANGE_def dirToFire_def)
  then show ?thesis
    using assms(2-6) by (simp add: checkWaterFireCollision_def suppressLoop_lookup)
qed

lemma originPlayer_simps [simp]:
  "position originPlayer = \<lparr>vx = 0, vy = 0, vz = 0\<rparr>" "rotation originPlayer = 0"
  "waterLevel originPlayer = 100" "maxWater originPlayer = 100"
  by (simp_all add: originPlayer_def)

lemma cone_example:
  "position pl = \<lparr>vx = 0, vy = 0, vz = 0\<rparr> \<Longrightarrow> rotation pl = 0 \<Longrightarrow> fx fire = 0 \<Longrightarrow>
   fz fire = -4 \<Longrightarrow> inWaterCone pl fire"
  by (simp add: inWaterCone_def distance3D_def normalize3D_def WATER_RANGE_def sqrt_16 Let_def)

lemma originPlayer_water: "waterLevel originPlayer = 100"
  by (simp add: originPlayer_def)

theorem checkWaterFireCollision_cone_witness:
  "sceneRef shootRefs \<and> '' '' \<in> keysRef shootRefs \<and> waterLevel originPlayer > 0 \<and>
   distinct (map fst (oneFire 0.5)) \<and>
   distance3D (position originPlayer) \<lparr>vx = 0, vy = 0, vz = -4\<rparr> < 8 \<and>
   checkWaterFireCollision shootRefs originPlayer (oneFire 0.5) 0.1 = oneFire 0.35 \<and>
   map_of (checkWaterFireCollision shootRefs originPlayer (oneFire 0.5) 0.1) ''0--2'' =
     Some \<lparr>fx = 0, fz = -4, intensity = 0.35, spreadTime = 0, mesh = Some 300\<rparr> \<and>
   checkWaterFireCollision shootRefs originPlayer (oneFire 0.05) 0.1 = [] \<and>
   map_of (checkWaterFireCollision shootRefs originPlayer (oneFire 0.05) 0.1) ''0--2'' = None"
proof -
  have a: "map_of (checkWaterFireCollision shootRefs originPlayer (oneFire 0.5) 0.1) ''0--2'' =
     Some \<lparr>fx = 0, fz = -4, intensity = 0.35, spreadTime = 0, mesh = Some 300\<rparr>"
    using checkWaterFireCollision_cone [where r = shootRefs and pl = originPlayer
        and fs = "oneFire 0.5" and k = "''0--2''" and deltaTime = "0.1"
        and fire = "\<lparr>fx = 0, fz = -4, intensity = 0.5, spreadTime = 0, mesh = Some 300\<rparr>"]
    by (simp add: shootRefs_def originPlayer_def oneFire_def distance3D_def normalize3D_def
        sqrt_16 Let_def)
  have b: "map_of (checkWaterFireCollision shootRefs originPlayer (oneFire 0.05) 0.1) ''0--2'' = None"
    using checkWaterFireCollision_cone [where r = shootRefs and pl = originPlayer
        and fs = "oneFire 0.05" and k = "''0--2''" and deltaTime = "0.1"
        and fire = "\<lparr>fx = 0, fz = -4, intensity = 0.05, spreadTime = 0, mesh = Some 300\<rparr>"]
    by (simp add: shootRefs_def originPlayer_def oneFire_def distance3D_def normalize3D_def
        sqrt_16 Let_def)
  have c: "checkWaterFireCollision shootRefs originPlayer (oneFire 0.5) 0.1 = oneFire 0.35"
    "checkWaterFireCollision shootRefs originPlayer (oneFire 0.05) 0.1 = []"
    by (simp_all add: checkWaterFireCollision_def shootRefs_def oneFire_def cone_example
        originPlayer_water Let_def)
  show ?thesis using a b c
    by (simp add: shootRefs_def originPlayer_def oneFire_def distance3D_def sqrt_16)
qed

text \<open>
  C8. Without the shoot key, or with a water level of zero or below,
  checkWaterFireCollision returns the map as it received it: no intensity changes and
  no cell is removed.
\<close>

theorem checkWaterFireCollision_idle:
  assumes "'' '' \<notin> keysRef r \<or> waterLevel pl \<le> 0"
  shows "checkWaterFireCollision r pl fs deltaTime = fs"
  using assms by (auto simp: checkWaterFireCollision_def)

theorem checkWaterFireCollision_idle_witness:
  "'' '' \<notin> keysRef idleRefs \<and>
   checkWaterFireCollision idleRefs originPlayer (oneFire 0.05) 0.1 = oneFire 0.05 \<and>
   waterLevel (originPlayer\<lparr>waterLevel := 0\<rparr>) \<le> 0 \<and>
   checkWaterFireCollision shootRefs (originPlayer\<lparr>waterLevel := 0\<rparr>) (oneFire 0.05) 0.1 = oneFire 0.05"
  using checkWaterFireCollision_idle [of idleRefs originPlayer "oneFire 0.05" "0.1"]
    checkWaterFireCollision_idle [of shootRefs "originPlayer\<lparr>waterLevel := 0\<rparr>" "oneFire 0.05" "0.1"]
  by (simp add: idleRefs_def)

section \<open>Properties of checkGameConditions and gameLoop\<close>

lemma fireTooClose_iff:
  "fireTooClose pl fs \<longleftrightarrow>
     (\<exists>e\<in>set fs. distance3D (position pl) \<lparr>vx = fx (snd e), vy = 0, vz = fz (snd e)\<rparr> < 1.5)"
  by (induction fs) (auto simp: Let_def)

text \<open>
  C4. checkGameConditions answers Lost exactly when some fire cell is closer than 1.5
  to the player, Won exactly when the map is empty, and Playing in the remaining case.
  In a tick of the playing state the fire map of the new state is the result of
  checkWaterFireCollision (run on the player and the fires just updated), and the new
  status is checkGameConditions of that player and that map: a tick whose suppression
  leaves the map empty ends in Won at once. The witness is such a tick: the last cell,
  of intensity 0.05, is put out and the status of the same tick is Won.
\<close>

theorem terminal_check_same_tick:
  fixes g prevState :: GameState and r :: Refs and pl :: Player and fs :: FireMap
    and rng :: "nat \<Rightarrow> real" and i :: nat and currentTime :: real
  defines "deltaTime \<equiv> (currentTime - lastFrameTimeRef r) / 1000"
  defines "s' \<equiv> fst (gameLoop g r rng i currentTime prevState)"
  defines "near \<equiv> \<exists>e\<in>set fs. distance3D (position pl) \<lparr>vx = fx (snd e), vy = 0, vz = fz (snd e)\<rparr> < 1.5"
  shows "(checkGameConditions pl fs = Lost \<longleftrightarrow> near) \<and>
         (checkGameConditions pl fs = Won \<longleftrightarrow> fs = []) \<and>
         (checkGameConditions pl fs = Playing \<longleftrightarrow> \<not> near \<and> fs \<noteq> []) \<and>
         (gameStatus g = Playing \<longrightarrow>
            player s' = updatePlayer g (keysRef r) (player prevState) deltaTime \<and>
            fires s' = checkWaterFireCollision r (player s')
                         (fst (updateFires g r rng (i + updatePlayerDraws r (player prevState))
                                 (fires prevState) deltaTime)) deltaTime \<and>
            gameStatus s' = checkGameConditions (player s') (fires s') \<and>
            (fires s' = [] \<longrightarrow> gameStatus s' = Won))"
proof -
  have c: "fireTooClose pl fs = near"
    unfolding near_def by (rule fireTooClose_iff)
  have e: "fs = [] \<Longrightarrow> \<not> near"
    by (simp add: near_def)
  have a: "(checkGameConditions pl fs = Lost \<longleftrightarrow> near) \<and>
         (checkGameConditions pl fs = Won \<longleftrightarrow> fs = []) \<and>
         (checkGameConditions pl fs = Playing \<longleftrightarrow> \<not> near \<and> fs \<noteq> [])"
    using e by (auto simp: checkGameConditions_def c)
  have b: "gameStatus g = Playing \<Longrightarrow>
            player s' = updatePlayer g (keysRef r) (player prevState) deltaTime \<and>
            fires s' = checkWaterFireCollision r (player s')
                         (fst (updateFires g r rng (i + updatePlayerDraws r (player prevState))
                                 (fires prevState) deltaTime)) deltaTime \<and>
            gameStatus s' = checkGameConditions (player s') (fires s')"
    by (simp add: s'_def deltaTime_def gameLoop_def Let_def)
  have d': "gameStatus g = Playing \<Longrightarrow> fires s' = [] \<Longrightarrow> gameStatus s' = Won"
    by (simp add: s'_def gameLoop_def Let_def checkGameConditions_def)
  have b': "gameStatus g = Playing \<longrightarrow>
            player s' = updatePlayer g (keysRef r) (player prevState) deltaTime \<and>
            fires s' = checkWaterFireCollision r (player s')
                         (fst (updateFires g r rng (i + updatePlayerDraws r (player prevState))
                                 (fires prevState) deltaTime)) deltaTime \<and>
            gameStatus s' = checkGameConditions (player s') (fires s') \<and>
            (fires s' = [] \<longrightarrow> gameStatus s' = Won)"
    using b d' by blast
  from a b' show ?thesis by blast
qed

lemma suppress_one_fire:
  "position pl = \<lparr>vx = 0, vy = 0, vz = 0\<rparr> \<Longrightarrow> rotation pl = 0 \<Longrightarrow> fx fire = 0 \<Longrightarrow>
   fz fire = -4 \<Longrightarrow>
   suppressLoop pl dt [(k, fire)] =
     (if intensity fire - 1.5 * dt \<le> 0 then []
      else [(k, fire\<lparr>intensity := intensity fire - 1.5 * dt\<rparr>)])"
  by (simp add: cone_example Let_def)

lemma updateLoop_one_fire:
  "updateLoop (treeScene []) rng (1 / 10) 0 (oneFire (1 / 20), i) =
     ([(''0--2'', \<lparr>fx = 0, fz = -4, intensity = 3 / 50, spreadTime = 1 / 10, mesh = Some 300\<rparr>)],
      i + 300)"
  by (simp add: updateLoop.simps updateFire_def oneFire_def treeScene_def initialGameState_def
      spreadDue_def FIRE_SPREAD_RATE_def Let_def)

lemma player_after_tick:
  "updatePlayer (treeScene []) {'' ''} originPlayer (1 / 10) =
     originPlayer\<lparr>waterLevel := 97, isRefilling := False\<rparr>"
  by (simp add: updatePlayer_def turn_def movePlayer_def moveVector_def treeScene_def
      initialGameState_def originPlayer_def distance3D_def sqrt_less_iff REFILL_RATE_def Let_def)

theorem terminal_check_same_tick_witness:
  "gameStatus (treeScene []) = Playing \<and>
   fires sceneD = oneFire 0.05 \<and>
   fires (fst (gameLoop (treeScene []) shootRefs rngHalf 0 100 sceneD)) = [] \<and>
   gameStatus (fst (gameLoop (treeScene []) shootRefs rngHalf 0 100 sceneD)) = Won"
proof -
  have p: "gameStatus (treeScene []) = Playing"
    by (simp add: treeScene_def)
  have pl: "player sceneD = originPlayer"
    by (simp add: sceneD_def treeScene_def initialGameState_def originPlayer_def)
  have f: "fires sceneD = oneFire (1 / 20)"
    by (simp add: sceneD_def)
  have k: "keysRef shootRefs = {'' ''}" "sceneRef shootRefs" "lastFrameTimeRef shootRefs = 0"
    by (simp_all add: shootRefs_def)
  have e: "fires (fst (gameLoop (treeScene []) shootRefs rngHalf 0 100 sceneD)) = []"
    by (simp add: gameLoop_def p pl f k player_after_tick updateFires_def updateLoop_one_fire
        checkWaterFireCollision_def suppress_one_fire cone_example Let_def)
  show ?thesis
    using e terminal_check_same_tick [where g = "treeScene []" and r = shootRefs and rng = rngHalf
        and i = 0 and currentTime = 100 and prevState = sceneD]
    by (simp add: p f)
qed

section \<open>Properties of updateFires\<close>

lemma spreadLoop_step:
  "spreadLoop g rng fire c (dir # ds) s =
     (let p = spreadTarget g fire dir; k = gridKey (fst p) (snd p)
      in if rng (snd s) < c \<and> inWorld p \<and> \<not> mapHas k (fst s)
         then spreadLoop g rng fire c ds (fst s @ [(k, spreadCell p)], snd s + 1 + 250 * 5)
         else spreadLoop g rng fire c ds (fst s, snd s + 1))"
  by (auto simp: Let_def spreadTarget_def inWorld_def spreadCell_def mapSet_new)

lemma spreadLoop_new:
  "\<exists>new. fst (spreadLoop g rng fire c ds s) = fst s @ new \<and> length new \<le> length ds \<and>
         snd s \<le> snd (spreadLoop g rng fire c ds s) \<and>
         (\<forall>e\<in>set new. \<not> mapHas (fst e) (fst s) \<and>
            (\<exists>dir\<in>set ds. \<exists>j. snd s \<le> j \<and> j < snd (spreadLoop g rng fire c ds s) \<and> rng j < c \<and>
               inWorld (spreadTarget g fire dir) \<and>
               e = (gridKey (fst (spreadTarget g fire dir)) (snd (spreadTarget g fire dir)),
                    spreadCell (spreadTarget g fire dir))))"
proof (induction ds arbitrary: s)
  case Nil
  then show ?case by simp
next
  case (Cons dir ds)
  define p where "p = spreadTarget g fire dir"
  define k where "k = gridKey (fst p) (snd p)"
  show ?case
  proof (cases "rng (snd s) < c \<and> inWorld p \<and> \<not> mapHas k (fst s)")
    case True
    define s1 where "s1 = (fst s @ [(k, spreadCell p)], snd s + 1 + 250 * 5)"
    have eq: "spreadLoop g rng fire c (dir # ds) s = spreadLoop g rng fire c ds s1"
      using True unfolding spreadLoop_step s1_def by (simp add: Let_def p_def k_def)
    obtain new where new: "fst (spreadLoop g rng fire c ds s1) = fst s1 @ new"
      "length new \<le> length ds" "snd s1 \<le> snd (spreadLoop g rng fire c ds s1)"
      "\<forall>e\<in>set new. \<not> mapHas (fst e) (fst s1) \<and>
            (\<exists>dir\<in>set ds. \<exists>j. snd s1 \<le> j \<and> j < snd (spreadLoop g rng fire c ds s1) \<and> rng j < c \<and>
               inWorld (spreadTarget g fire dir) \<and>
               e = (gridKey (fst (spreadTarget g fire dir)) (snd (spreadTarget g fire dir)),
                    spreadCell (spreadTarget g fire dir)))"
      using Cons.IH [of s1] by blast
    have lt: "snd s < snd (spreadLoop g rng fire c ds s1)"
      using new(3) by (simp add: s1_def)
    have "\<forall>e\<in>set ((k, spreadCell p) # new). \<not> mapHas (fst e) (fst s) \<and>
            (\<exists>d\<in>set (dir # ds). \<exists>j. snd s \<le> j \<and> j < snd (spreadLoop g rng fire c ds s1) \<and> rng j < c \<and>
               inWorld (spreadTarget g fire d) \<and>
               e = (gridKey (fst (spreadTarget g fire d)) (snd (spreadTarget g fire d)),
                    spreadCell (spreadTarget g fire d)))"
    proof
      fix e assume "e \<in> set ((k, spreadCell p) # new)"
      then consider "e = (k, spreadCell p)" | "e \<in> set new" by auto
      then show "\<not> mapHas (fst e) (fst s) \<and>
            (\<exists>d\<in>set (dir # ds). \<exists>j. snd s \<le> j \<and> j < snd (spreadLoop g rng fire c ds s1) \<and> rng j < c \<and>
               inWorld (spreadTarget g fire d) \<and>
               e = (gridKey (fst (spreadTarget g fire d)) (snd (spreadTarget g fire d)),
                    spreadCell (spreadTarget g fire d)))"
      proof cases
        case 1
        then show ?thesis using True lt by (auto simp: p_def k_def)
      next
        case 2
        then obtain d j where d: "d \<in> set ds" "snd s1 \<le> j" "j < snd (spreadLoop g rng fire c ds s1)"
          "rng j < c" "inWorld (spreadTarget g fire d)"
          "e = (gridKey (fst (spreadTarget g fire d)) (snd (spreadTarget g fire d)),
                    spreadCell (spreadTarget g fire d))" and nh: "\<not> mapHas (fst e) (fst s1)"
          using new(4) by blast
        have "snd s \<le> j" using d(2) by (simp add: s1_def)
        moreover have "\<not> mapHas (fst e) (fst s)" using nh by (simp add: s1_def mapHas_def)
        ultimately show ?thesis using d by auto
      qed
    qed
    then show ?thesis
      using new(1,2) lt unfolding eq by (intro exI [of _ "(k, spreadCell p) # new"]) (simp add: s1_def)
  next
    case False
    define s1 where "s1 = (fst s, snd s + 1)"
    have eq: "spreadLoop g rng fire c (dir # ds) s = spreadLoop g rng fire c ds s1"
      unfolding spreadLoop_step s1_def Let_def using False [unfolded p_def k_def]
      by (rule if_not_P)
    obtain new where new: "fst (spreadLoop g rng fire c ds s1) = fst s1 @ new"
      "length new \<le> length ds" "snd s1 \<le> snd (spreadLoop g rng fire c ds s1)"
      "\<forall>e\<in>set new. \<not> mapHas (fst e) (fst s1) \<and>
            (\<exists>dir\<in>set ds. \<exists>j. snd s1 \<le> j \<and> j < snd (spreadLoop g rng fire c ds s1) \<and> rng j < c \<and>
               inWorld (spreadTarget g fire dir) \<and>
               e = (gridKey (fst (spreadTarget g fire dir)) (snd (spreadTarget g fire dir)),
                    spreadCell (spreadTarget g fire dir)))"
      using Cons.IH [of s1] by blast
    have "\<forall>e\<in>set new. \<not> mapHas (fst e) (fst s) \<and>
            (\<exists>d\<in>set (dir # ds). \<exists>j. snd s \<le> j \<and> j < snd (spreadLoop g rng fire c ds s1) \<and> rng j < c \<and>
               inWorld (spreadTarget g fire d) \<and>
               e = (gridKey (fst (spreadTarget g fire d)) (snd (spreadTarget g fire d)),
                    spreadCell (spreadTarget g fire d)))"
    proof
      fix e assume "e \<in> set new"
      then obtain d j where d: "d \<in> set ds" "snd s1 \<le> j" "j < snd (spreadLoop g rng fire c ds s1)"
          "rng j < c" "inWorld (spreadTarget g fire d)"
          "e = (gridKey (fst (spreadTarget g fire d)) (snd (spreadTarget g fire d)),
                    spreadCell (spreadTarget g fire d))" and nh: "\<not> mapHas (fst e) (fst s1)"
        using new(4) by blast
      have "snd s \<le> j" using d(2) by (simp add: s1_def)
      moreover have "\<not> mapHas (fst e) (fst s)" using nh by (simp add: s1_def)
      ultimately show "\<not> mapHas (fst e) (fst s) \<and>
            (\<exists>d\<in>set (dir # ds). \<exists>j. snd s \<le> j \<and> j < snd (spreadLoop g rng fire c ds s1) \<and> rng j < c \<and>
               inWorld (spreadTarget g fire d) \<and>
               e = (gridKey (fst (spreadTarget g fire d)) (snd (spreadTarget g fire d)),
                    spreadCell (spreadTarget g fire d)))"
        using d by auto
    qed
    moreover have "snd s \<le> snd (spreadLoop g rng fire c ds s1)"
      using new(3) by (simp add: s1_def)
    ultimately show ?thesis
      using new(1,2) unfolding eq by (intro exI [of _ new]) (simp add: s1_def)
  qed
qed

lemma spreadLoop_keeps: "mapHas k (fst s) \<Longrightarrow> mapHas k (fst (spreadLoop g rng fire c ds s))"
  using spreadLoop_new [of g rng fire c ds s] by (auto simp: mapHas_def)

lemma spreadLoop_all:
  "\<forall>j. rng j < c \<Longrightarrow> dir \<in> set ds \<Longrightarrow> inWorld (spreadTarget g fire dir) \<Longrightarrow>
   mapHas (gridKey (fst (spreadTarget g fire dir)) (snd (spreadTarget g fire dir)))
     (fst (spreadLoop g rng fire c ds s))"
proof (induction ds arbitrary: s)
  case Nil
  then show ?case by simp
next
  case (Cons d ds)
  show ?case
  proof (cases "dir = d")
    case True
    define k where "k = gridKey (fst (spreadTarget g fire d)) (snd (spreadTarget g fire d))"
    show ?thesis
    proof (cases "mapHas k (fst s)")
      case True
      then have "spreadLoop g rng fire c (d # ds) s = spreadLoop g rng fire c ds (fst s, snd s + 1)"
        unfolding spreadLoop_step by (simp add: Let_def k_def)
      then show ?thesis
        using True \<open>dir = d\<close> spreadLoop_keeps [of k "(fst s, snd s + 1)"] by (simp add: k_def)
    next
      case False
      then have "spreadLoop g rng fire c (d # ds) s =
          spreadLoop g rng fire c ds
            (fst s @ [(k, spreadCell (spreadTarget g fire d))], snd s + 1 + 250 * 5)"
        unfolding spreadLoop_step using Cons.prems(1,3) \<open>dir = d\<close> by (simp add: Let_def k_def)
      moreover have "mapHas k (fst (fst s @ [(k, spreadCell (spreadTarget g fire d))], snd s + 1 + 250 * 5))"
        by (simp add: mapHas_def)
      ultimately show ?thesis
        using \<open>dir = d\<close> spreadLoop_keeps [of k "(fst s @ [(k, spreadCell (spreadTarget g fire d))], snd s + 1 + 250 * 5)"]
        by (simp add: k_def)
    qed
  next
    case False
    then have "dir \<in> set ds" using Cons.prems(2) by simp
    then show ?thesis
      using Cons.IH Cons.prems(1,3) unfolding spreadLoop_step by (simp add: Let_def)
  qed
qed

lemma spreadLoop_draws:
  "snd (spreadLoop g rng fire c ds s) =
     snd s + length ds + 1250 * (length (fst (spreadLoop g rng fire c ds s)) - length (fst s))"
proof (induction ds arbitrary: s)
  case Nil
  then show ?case by simp
next
  case (Cons dir ds)
  define p where "p = spreadTarget g fire dir"
  define k where "k = gridKey (fst p) (snd p)"
  show ?case
  proof (cases "rng (snd s) < c \<and> inWorld p \<and> \<not> mapHas k (fst s)")
    case True
    define s1 where "s1 = (fst s @ [(k, spreadCell p)], snd s + 1 + 250 * 5)"
    have eq: "spreadLoop g rng fire c (dir # ds) s = spreadLoop g rng fire c ds s1"
      unfolding spreadLoop_step s1_def Let_def using True [unfolded p_def k_def]
      by (simp add: p_def k_def)
    define d where "d = length (fst (spreadLoop g rng fire c ds s1)) - (length (fst s) + 1)"
    have "length (fst s1) \<le> length (fst (spreadLoop g rng fire c ds s1))"
      by (rule spreadLoop_length)
    then have d: "length (fst (spreadLoop g rng fire c ds s1)) = length (fst s) + 1 + d"
      by (simp add: s1_def d_def)
    have "snd (spreadLoop g rng fire c ds s1) = snd s1 + length ds + 1250 * d"
      using Cons.IH [of s1] d by (simp add: s1_def)
    then show ?thesis unfolding eq using d by (simp add: s1_def)
  next
    case False
    define s1 where "s1 = (fst s, snd s + 1)"
    have eq: "spreadLoop g rng fire c (dir # ds) s = spreadLoop g rng fire c ds s1"
      unfolding spreadLoop_step s1_def Let_def using False [unfolded p_def k_def]
      by (rule if_not_P)
    show ?thesis unfolding eq using Cons.IH [of s1] by (simp add: s1_def)
  qed
qed

text \<open>
  What one round of the loop of updateFires does, for the cell at place n. The cell's timer
  grows by deltaTime and its intensity by 0.1 times deltaTime, capped at 1. The round
  is due when the game speed is not zero and the timer exceeds FIRE_SPREAD_RATE divided
  by the game speed. When it is not due, nothing else changes. When it is due, the
  timer is reset to 0, the four directions draw one random value each (plus 1250
  cosmetic draws for each new cell), the old entries stay as they are and at most four
  cells are appended. Every appended cell has intensity 0.3 and timer 0, a key that was
  not in the map, and comes from a direction whose draw was below intensity times wind
  speed times 0.2 and whose wind-shifted target lies strictly inside the world. When
  every draw is below that chance, each direction with a target inside the world has its
  key in the map afterwards.
\<close>

lemma updateFire_round:
  fixes g :: GameState and rng :: "nat \<Rightarrow> real" and deltaTime :: real and n i :: nat
    and m :: FireMap
  defines "key \<equiv> fst (m ! n)"
  defines "fire \<equiv> snd (m ! n)"
  defines "grown \<equiv> fire\<lparr>spreadTime := spreadTime fire + deltaTime,
                          intensity := min 1 (intensity fire + deltaTime * 0.1)\<rparr>"
  defines "due \<equiv> gameSpeed g \<noteq> 0 \<and> spreadTime grown > FIRE_SPREAD_RATE / gameSpeed g"
  defines "source \<equiv> grown\<lparr>spreadTime := 0\<rparr>"
  defines "chance \<equiv> intensity grown * windSpeed g * 0.2"
  defines "i1 \<equiv> (case mesh fire of None \<Rightarrow> i | Some particles \<Rightarrow> i + particles)"
  defines "s' \<equiv> updateFire g rng deltaTime n (m, i)"
  assumes n: "n < length m"
  shows "(\<not> due \<longrightarrow> s' = (m[n := (key, grown)], i1)) \<and>
         (due \<longrightarrow> take (length m) (fst s') = m[n := (key, source)] \<and>
                  snd s' = i1 + 4 + 1250 * (length (fst s') - length m)) \<and>
         length (fst s') \<le> length m + 4 \<and>
         (\<forall>e\<in>set (drop (length m) (fst s')).
            due \<and> \<not> mapHas (fst e) m \<and> intensity (snd e) = 0.3 \<and> spreadTime (snd e) = 0 \<and>
            (\<exists>dir\<in>set directions. \<exists>j. i1 \<le> j \<and> j < snd s' \<and> rng j < chance \<and>
               inWorld (spreadTarget g source dir) \<and>
               e = (gridKey (fst (spreadTarget g source dir)) (snd (spreadTarget g source dir)),
                    spreadCell (spreadTarget g source dir)))) \<and>
         (due \<and> (\<forall>j. rng j < chance) \<longrightarrow>
            (\<forall>dir\<in>set directions. inWorld (spreadTarget g source dir) \<longrightarrow>
               mapHas (gridKey (fst (spreadTarget g source dir)) (snd (spreadTarget g source dir)))
                 (fst s')))"
proof (cases due)
  case False
  have "s' = (if due then spreadLoop g rng source chance directions (m[n := (key, source)], i1)
              else (m[n := (key, grown)], i1))"
    by (simp add: s'_def updateFire_def Let_def spreadDue_def due_def grown_def key_def fire_def
        i1_def source_def chance_def)
  then have "s' = (m[n := (key, grown)], i1)"
    using False by simp
  then show ?thesis using False by simp
next
  case True
  define m0 where "m0 = m[n := (key, source)]"
  have "s' = (if due then spreadLoop g rng source chance directions (m[n := (key, source)], i1)
              else (m[n := (key, grown)], i1))"
    by (simp add: s'_def updateFire_def Let_def spreadDue_def due_def grown_def key_def fire_def
        i1_def source_def chance_def)
  then have s': "s' = spreadLoop g rng source chance directions (m0, i1)"
    using True by (simp add: m0_def)
  have keys: "mapHas k m0 = mapHas k m" for k
  proof -
    have "map fst m0 = map fst m"
      using n by (simp add: m0_def key_def map_update list_update_same_conv)
    then have "fst ` set m0 = fst ` set m" by (metis set_map)
    then show ?thesis by (simp add: mapHas_def)
  qed
  obtain new where new: "fst s' = m0 @ new" "length new \<le> length directions"
    "\<forall>e\<in>set new. \<not> mapHas (fst e) m0 \<and>
            (\<exists>dir\<in>set directions. \<exists>j. i1 \<le> j \<and> j < snd s' \<and> rng j < chance \<and>
               inWorld (spreadTarget g source dir) \<and>
               e = (gridKey (fst (spreadTarget g source dir)) (snd (spreadTarget g source dir)),
                    spreadCell (spreadTarget g source dir)))"
    using spreadLoop_new [of g rng source chance directions "(m0, i1)"] unfolding s' by auto
  have l: "length m0 = length m" by (simp add: m0_def)
  have a: "take (length m) (fst s') = m[n := (key, source)]"
    using new(1) l by (simp add: m0_def)
  have b: "snd s' = i1 + 4 + 1250 * (length (fst s') - length m)"
    using spreadLoop_draws [of g rng source chance directions "(m0, i1)"] l
    by (simp add: s' directions_def)
  have c: "length (fst s') \<le> length m + 4"
    using new(1,2) l by (simp add: directions_def)
  have d: "drop (length m) (fst s') = new"
    using new(1) l by simp
  have e: "\<forall>e\<in>set (drop (length m) (fst s')).
            due \<and> \<not> mapHas (fst e) m \<and> intensity (snd e) = 0.3 \<and> spreadTime (snd e) = 0 \<and>
            (\<exists>dir\<in>set directions. \<exists>j. i1 \<le> j \<and> j < snd s' \<and> rng j < chance \<and>
               inWorld (spreadTarget g source dir) \<and>
               e = (gridKey (fst (spreadTarget g source dir)) (snd (spreadTarget g source dir)),
                    spreadCell (spreadTarget g source dir)))"
    unfolding d
  proof
    fix e assume "e \<in> set new"
    then have h: "\<not> mapHas (fst e) m0 \<and>
            (\<exists>dir\<in>set directions. \<exists>j. i1 \<le> j \<and> j < snd s' \<and> rng j < chance \<and>
               inWorld (spreadTarget g source dir) \<and>
               e = (gridKey (fst (spreadTarget g source dir)) (snd (spreadTarget g source dir)),
                    spreadCell (spreadTarget g source dir)))"
      using new(3) by blast
    then have "intensity (snd e) = 0.3 \<and> spreadTime (snd e) = 0"
      by (auto simp: spreadCell_def)
    then show "due \<and> \<not> mapHas (fst e) m \<and> intensity (snd e) = 0.3 \<and> spreadTime (snd e) = 0 \<and>
            (\<exists>dir\<in>set directions. \<exists>j. i1 \<le> j \<and> j < snd s' \<and> rng j < chance \<and>
               inWorld (spreadTarget g source dir) \<and>
               e = (gridKey (fst (spreadTarget g source dir)) (snd (spreadTarget g source dir)),
                    spreadCell (spreadTarget g source dir)))"
      using h True keys by simp
  qed
  have f: "(\<forall>j. rng j < chance) \<longrightarrow>
            (\<forall>dir\<in>set directions. inWorld (spreadTarget g source dir) \<longrightarrow>
               mapHas (gridKey (fst (spreadTarget g source dir)) (snd (spreadTarget g source dir)))
                 (fst s'))"
    unfolding s' using spreadLoop_all by blast
  show ?thesis using True a b c e f by blast
qed

lemma gridKey_examples:
  "gridKey (17 / 5) (- (17 / 5)) = ''1--2''" "gridKey (- (3 / 5)) (- (17 / 5)) = ''-1--2''"
  "gridKey (7 / 5) (- (7 / 5)) = ''0--1''" "gridKey (7 / 5) (- (27 / 5)) = ''0--3''"
  by (simp_all add: gridKey_def showInt_def showNat.simps GRID_SIZE_def)

lemma updateFire_example:
  "updateFire (treeScene []) rngZero 0.1 0 (dueFire, 0) =
     ([(''0--2'', \<lparr>fx = 0, fz = -4, intensity = 0.51, spreadTime = 0, mesh = Some 300\<rparr>),
       (''1--2'', \<lparr>fx = 2, fz = -4, intensity = 0.3, spreadTime = 0, mesh = Some 250\<rparr>),
       (''-1--2'', \<lparr>fx = -2, fz = -4, intensity = 0.3, spreadTime = 0, mesh = Some 250\<rparr>),
       (''0--1'', \<lparr>fx = 0, fz = -2, intensity = 0.3, spreadTime = 0, mesh = Some 250\<rparr>),
       (''0--3'', \<lparr>fx = 0, fz = -6, intensity = 0.3, spreadTime = 0, mesh = Some 250\<rparr>)],
      5304)"
  by (simp add: updateFire_def dueFire_def treeScene_def initialGameState_def spreadDue_def
      directions_def rngZero_def FIRE_SPREAD_RATE_def GRID_SIZE_def WORLD_SIZE_def
      gridKey_examples mapHas_def snap_def Let_def)


section \<open>Properties of initializeFires and generateTrees\<close>

lemma gridKey_centre: "gridKey 0 0 = ''0-0''"
  by (simp add: gridKey_def showInt_def showNat.simps)

lemma placeFire_empty: "placeFire rngHalf [] 0 i cur = (True, (0, 0, ''0-0''), i + 2)"
  by (simp add: placeFire.simps [of _ _ 0] rngHalf_def gridKey_centre mapHas_def Let_def)

lemma placeFire_occupied_gen:
  "\<forall>n. rng n = 1 / 2 \<Longrightarrow> mapHas ''0-0'' fs \<Longrightarrow>
   placeFire rng fs attempts i cur =
     (False, (if attempts < 100 then (0, 0, ''0-0'') else cur), i + 2 * (100 - attempts))"
proof (induction rng fs attempts i cur rule: placeFire.induct)
  case (1 rng fs attempts i cur)
  show ?case
  proof (cases "attempts < 100")
    case True
    have r: "rng i = 1 / 2" "rng (Suc i) = 1 / 2"
      using "1.prems"(1) by blast+
    have occ: "mapHas ''0-0'' fs" by (rule "1.prems"(2))
    have step: "placeFire rng fs attempts i cur =
            placeFire rng fs (attempts + 1) (i + 2) (0, 0, ''0-0'')"
      using True occ
      by (subst placeFire.simps) (simp add: r gridKey_centre Let_def)
    have np: "\<not> (\<not> mapHas (gridKey ((rng i - 0.5) * (WORLD_SIZE - 10))
                               ((rng (i + 1) - 0.5) * (WORLD_SIZE - 10))) fs \<and>
                (length fs = 0 \<or>
                 (case minDistance fs ((rng i - 0.5) * (WORLD_SIZE - 10))
                                     ((rng (i + 1) - 0.5) * (WORLD_SIZE - 10)) of
                    None \<Rightarrow> True | Some d \<Rightarrow> d > 6)))"
      using occ by (simp add: r gridKey_centre)
    have "placeFire rng fs (attempts + 1) (i + 2) (0, 0, ''0-0'') =
       (False, (if attempts + 1 < 100 then (0, 0, ''0-0'') else (0, 0, ''0-0'')),
        i + 2 + 2 * (100 - (attempts + 1)))"
      using "1.IH" [OF True refl refl refl refl np "1.prems"(1) occ]
      by (simp add: r gridKey_centre)
    then show ?thesis using True unfolding step by simp
  next
    case False
    then show ?thesis by (subst placeFire.simps) simp
  qed
qed

lemma placeFire_occupied:
  "mapHas ''0-0'' fs \<Longrightarrow>
   placeFire rngHalf fs attempts i cur =
     (False, (if attempts < 100 then (0, 0, ''0-0'') else cur), i + 2 * (100 - attempts))"
  by (rule placeFire_occupied_gen) (simp_all add: rngHalf_def)

lemma initLoop_pos: "0 < n \<Longrightarrow> initLoop n rng s = initLoop (n - 1) rng (initFire rng s)"
  by (cases n) simp_all

lemma initFire_first: "initFire rngHalf ([], i) = (centreFire, i + 1505)"
  by (simp add: initFire_def placeFire_empty centreFire_def rngHalf_def snap_def Let_def)

lemma initFire_again: "initFire rngHalf (centreFire, i) = (centreFire, i + 1705)"
proof -
  have h: "mapHas ''0-0'' centreFire" by (simp add: mapHas_def centreFire_def)
  show ?thesis
    by (simp add: initFire_def placeFire_occupied [OF h] rngHalf_def snap_def gridKey_centre Let_def)
      (simp add: centreFire_def)
qed

lemma initLoop_again: "fst (initLoop n rngHalf (centreFire, i)) = centreFire"
  by (induction n arbitrary: i) (simp_all add: initFire_again)

lemma initializeFires_half:
  "sceneRef r \<Longrightarrow> fst (initializeFires r rngHalf i) = centreFire"
  by (simp add: initializeFires_def INITIAL_FIRES_def initLoop_pos initFire_first initFire_again)

lemma mapSet_length: "length (mapSet k v m) \<le> Suc (length m)"
  by (induction m) auto

lemma mapSet_not_empty: "mapSet k v m \<noteq> []"
  by (cases m) auto

lemma mapSet_existing: "mapHas k m \<Longrightarrow> map fst (mapSet k v m) = map fst m"
  by (induction m) (auto simp: mapHas_def)

lemma mapSet_lookup: "map_of (mapSet k v m) k = Some v"
  by (induction m) auto

lemma initFire_length: "length (fst (initFire rng s)) \<le> Suc (length (fst s))"
  by (simp add: initFire_def Let_def mapSet_length)

lemma initFire_not_empty: "fst (initFire rng s) \<noteq> []"
  by (simp add: initFire_def Let_def mapSet_not_empty)

lemma initLoop_length: "length (fst (initLoop n rng s)) \<le> length (fst s) + n"
proof (induction n arbitrary: s)
  case 0
  then show ?case by simp
next
  case (Suc n)
  have "length (fst (initLoop n rng (initFire rng s))) \<le> length (fst (initFire rng s)) + n"
    by (rule Suc.IH)
  then show ?case using initFire_length [of rng s] by simp
qed

lemma initLoop_not_empty: "fst s \<noteq> [] \<Longrightarrow> fst (initLoop n rng s) \<noteq> []"
  by (induction n arbitrary: s) (simp_all add: initFire_not_empty)

lemma placeFire_draws: "snd (snd (placeFire rng fs attempts i cur)) \<le> i + 2 * (100 - attempts)"
proof (induction rng fs attempts i cur rule: placeFire.induct)
  case (1 rng fs attempts i cur)
  show ?case
  proof (cases "attempts < 100")
    case True
    show ?thesis
      using "1.IH" [OF True refl refl refl refl] True
      by (subst placeFire.simps) (auto simp: Let_def)
  next
    case False
    then show ?thesis by (subst placeFire.simps) simp
  qed
qed

lemma initFire_draws: "snd (initFire rng s) \<le> snd s + 1705"
proof -
  define l where "l = placeFire rng (fst s) 0 (snd s + 2)
     ((rng (snd s) - 0.5) * (WORLD_SIZE - 10), (rng (snd s + 1) - 0.5) * (WORLD_SIZE - 10),
      gridKey ((rng (snd s) - 0.5) * (WORLD_SIZE - 10)) ((rng (snd s + 1) - 0.5) * (WORLD_SIZE - 10)))"
  have "snd (snd l) \<le> snd s + 2 + 2 * (100 - 0)"
    unfolding l_def by (rule placeFire_draws)
  moreover have "snd (initFire rng s) = (if \<not> fst l then snd (snd l) + 2 else snd (snd l)) + 1 + 300 * 5"
    by (simp add: initFire_def Let_def l_def)
  ultimately show ?thesis by simp
qed

lemma initLoop_draws: "snd (initLoop n rng s) \<le> snd s + 1705 * n"
proof (induction n arbitrary: s)
  case 0
  then show ?case by simp
next
  case (Suc n)
  have "snd (initLoop n rng (initFire rng s)) \<le> snd (initFire rng s) + 1705 * n"
    by (rule Suc.IH)
  then show ?case using initFire_draws [of rng s] by simp
qed

text \<open>
  C9. initializeFires returns at most INITIAL_FIRES (5) cells, and at a session start
  never zero: the scene exists from the mount of the component on (initScene sets it
  before a game can be started), and with a scene at least one cell is returned. (The
  guard of line 343 would return the empty map without a scene.) It may return fewer
  than five: when every draw is 1/2 it returns a single cell. The reason is the fallback: in a
  round whose placement loop fails, when the key of the fallback position is already in
  the map, Map.set overwrites that cell, so the keys of the map stay as they were and
  the key now holds the new cell.
\<close>

theorem initializeFires_count:
  fixes rng :: "nat \<Rightarrow> real" and fs :: FireMap and i j :: nat and r :: Refs
  defines "x0 \<equiv> (rng j - 0.5) * (WORLD_SIZE - 10)"
  defines "z0 \<equiv> (rng (j + 1) - 0.5) * (WORLD_SIZE - 10)"
  defines "l \<equiv> placeFire rng fs 0 (j + 2) (x0, z0, gridKey x0 z0)"
  defines "xf \<equiv> (rng (snd (snd l)) - 0.5) * (WORLD_SIZE - 10)"
  defines "zf \<equiv> (rng (snd (snd l) + 1) - 0.5) * (WORLD_SIZE - 10)"
  shows "length (fst (initializeFires r rng i)) \<le> INITIAL_FIRES \<and>
         (sceneRef r \<longrightarrow> 1 \<le> length (fst (initializeFires r rng i))) \<and>
         (\<not> sceneRef r \<longrightarrow> fst (initializeFires r rng i) = []) \<and>
         (sceneRef r \<longrightarrow> length (fst (initializeFires r rngHalf i)) = 1) \<and>
         (\<not> fst l \<and> mapHas (gridKey xf zf) fs \<longrightarrow>
            map fst (fst (initFire rng (fs, j))) = map fst fs \<and>
            map_of (fst (initFire rng (fs, j))) (gridKey xf zf) =
              Some \<lparr>fx = snap xf, fz = snap zf,
                    intensity = rng (snd (snd l) + 2) * 0.5 + 0.5, spreadTime = 0,
                    mesh = Some 300\<rparr>)"
proof -
  have a: "length (fst (initializeFires r rng i)) \<le> INITIAL_FIRES"
    using initLoop_length [of INITIAL_FIRES rng "([], i)"]
    by (simp add: initializeFires_def)
  have b: "sceneRef r \<Longrightarrow> 1 \<le> length (fst (initializeFires r rng i))"
  proof -
    assume sc: "sceneRef r"
    have "fst (initLoop 4 rng (initFire rng ([], i))) \<noteq> []"
      by (rule initLoop_not_empty) (rule initFire_not_empty)
    then have "fst (initializeFires r rng i) \<noteq> []"
      using sc by (simp add: initializeFires_def INITIAL_FIRES_def initLoop_pos [of 5])
    then show ?thesis by (cases "fst (initializeFires r rng i)") simp_all
  qed
  have c: "\<not> sceneRef r \<Longrightarrow> fst (initializeFires r rng i) = []"
    by (simp add: initializeFires_def)
  have d: "sceneRef r \<Longrightarrow> length (fst (initializeFires r rngHalf i)) = 1"
    by (simp add: initializeFires_half centreFire_def)
  have e: "\<not> fst l \<Longrightarrow> mapHas (gridKey xf zf) fs \<Longrightarrow>
            map fst (fst (initFire rng (fs, j))) = map fst fs \<and>
            map_of (fst (initFire rng (fs, j))) (gridKey xf zf) =
              Some \<lparr>fx = snap xf, fz = snap zf,
                    intensity = rng (snd (snd l) + 2) * 0.5 + 0.5, spreadTime = 0,
                    mesh = Some 300\<rparr>"
    unfolding l_def x0_def z0_def xf_def zf_def
    by (simp add: initFire_def Let_def mapSet_existing mapSet_lookup)
  show ?thesis using a b c d e by blast
qed

theorem initializeFires_count_witness:
  "sceneRef shootRefs \<and>
   fst (initializeFires shootRefs rngHalf 0) = centreFire \<and>
   length (fst (initializeFires shootRefs rngHalf 0)) = 1 \<and>
   \<not> fst (placeFire rngHalf centreFire 0 2 (0, 0, ''0-0'')) \<and>
   mapHas ''0-0'' centreFire \<and>
   map fst (fst (initFire rngHalf (centreFire, 0))) = map fst centreFire"
proof -
  have sc: "sceneRef shootRefs" by (simp add: shootRefs_def)
  have h: "mapHas ''0-0'' centreFire" by (simp add: mapHas_def centreFire_def)
  have "length (fst (initializeFires shootRefs rngHalf 0)) = 1"
    using initializeFires_count [where r = shootRefs and i = 0] sc by blast
  then show ?thesis
    using sc h by (simp add: initializeFires_half placeFire_occupied initFire_again)
qed

lemma placeTree_result:
  "fst (placeTree stations rng ts attempts i) = ts \<or>
   (\<exists>t. fst (placeTree stations rng ts attempts i) = ts @ [t] \<and> clearOf stations t)"
proof (induction stations rng ts attempts i rule: placeTree.induct)
  case (1 stations rng ts attempts i)
  show ?case
  proof (cases "attempts < 200")
    case True
    show ?thesis
      using "1.IH" [OF True refl refl refl refl refl refl] True
      by (subst (1 2) placeTree.simps) (auto simp: Let_def clearOf_def list_ex_iff not_less)
  next
    case False
    then show ?thesis by (subst placeTree.simps) simp
  qed
qed

lemma placeTree_draws: "snd (placeTree stations rng ts attempts i) \<le> i + 3 * (200 - attempts)"
proof (induction stations rng ts attempts i rule: placeTree.induct)
  case (1 stations rng ts attempts i)
  show ?case
  proof (cases "attempts < 200")
    case True
    show ?thesis
      using "1.IH" [OF True refl refl refl refl refl refl] True
      by (subst placeTree.simps) (auto simp: Let_def)
  next
    case False
    then show ?thesis by (subst placeTree.simps) simp
  qed
qed

lemma placeTree_centre:
  "\<forall>n. rng n = 1 / 2 \<Longrightarrow> placeTree stations rng ts attempts i = (ts, i + 3 * (200 - attempts))"
proof (induction stations rng ts attempts i rule: placeTree.induct)
  case (1 stations rng ts attempts i)
  show ?case
  proof (cases "attempts < 200")
    case True
    have r: "rng i = 1 / 2" "rng (Suc i) = 1 / 2"
      using "1.prems" by blast+
    have "placeTree stations rng ts attempts i = placeTree stations rng ts (attempts + 1) (i + 3)"
      by (subst placeTree.simps) (simp add: True r Let_def)
    also have "\<dots> = (ts, i + 3 + 3 * (200 - (attempts + 1)))"
      using "1.IH" [OF True refl refl refl refl refl refl _ "1.prems"] by (simp add: r)
    finally show ?thesis using True by simp
  next
    case False
    then show ?thesis by (subst placeTree.simps) simp
  qed
qed

lemma generateTreesLoop_inv:
  "length (fst s) \<le> 40 \<Longrightarrow> \<forall>t\<in>set (fst s). clearOf stations t \<Longrightarrow>
   length (fst (generateTreesLoop stations rng n s)) \<le> 40 \<and>
   (\<forall>t\<in>set (fst (generateTreesLoop stations rng n s)). clearOf stations t)"
proof (induction stations rng n s rule: generateTreesLoop.induct)
  case (1 stations rng n s)
  show ?case
  proof (cases "n < 40 \<and> length (fst s) < 40")
    case True
    define s1 where "s1 = placeTree stations rng (fst s) 0 (snd s)"
    have "fst s1 = fst s \<or> (\<exists>t. fst s1 = fst s @ [t] \<and> clearOf stations t)"
      unfolding s1_def by (rule placeTree_result)
    then have "length (fst s1) \<le> 40" and "\<forall>t\<in>set (fst s1). clearOf stations t"
      using True "1.prems" by auto
    then have "length (fst (generateTreesLoop stations rng (n + 1) s1)) \<le> 40 \<and>
       (\<forall>t\<in>set (fst (generateTreesLoop stations rng (n + 1) s1)). clearOf stations t)"
      using "1.IH" [OF True] unfolding s1_def by blast
    then show ?thesis
      using True by (subst (1 2) generateTreesLoop.simps) (simp add: s1_def)
  next
    case False
    then show ?thesis
      using "1.prems" by (subst (1 2) generateTreesLoop.simps) auto
  qed
qed

lemma generateTreesLoop_draws:
  "snd (generateTreesLoop stations rng n s) \<le> snd s + 600 * (40 - n)"
proof (induction stations rng n s rule: generateTreesLoop.induct)
  case (1 stations rng n s)
  show ?case
  proof (cases "n < 40 \<and> length (fst s) < 40")
    case True
    have "snd (placeTree stations rng (fst s) 0 (snd s)) \<le> snd s + 3 * (200 - 0)"
      by (rule placeTree_draws)
    moreover have "40 - n = Suc (39 - n)"
      using True by arith
    ultimately show ?thesis
      using "1.IH" [OF True] True by (subst generateTreesLoop.simps) simp
  next
    case False
    then show ?thesis by (subst generateTreesLoop.simps) auto
  qed
qed

lemma generateTreesLoop_centre:
  "\<forall>k. rng k = 1 / 2 \<Longrightarrow> fst (generateTreesLoop stations rng n ([], i)) = []"
proof (induction stations rng n "([] :: Tree list, i)" arbitrary: i rule: generateTreesLoop.induct)
  case (1 stations rng n)
  show ?case
  proof (cases "n < 40")
    case True
    have "fst (generateTreesLoop stations rng (n + 1) ([], i + 600)) = []"
      using "1.hyps" [of "i + 600"] True "1.prems" by (simp add: placeTree_centre)
    then show ?thesis
      using True "1.prems" by (subst generateTreesLoop.simps) (simp add: placeTree_centre)
  next
    case False
    then show ?thesis by (subst generateTreesLoop.simps) simp
  qed
qed

lemma le_sqrt_iff: "0 \<le> b \<Longrightarrow> b \<le> sqrt a \<longleftrightarrow> b\<^sup>2 \<le> a"
  using real_sqrt_le_iff [of "b\<^sup>2" a] by simp

lemma placeTree_seven_first:
  "placeTree (refillStations initialGameState) rngSeven [] 0 i = ([treeSeven], i + 3)"
  by (subst placeTree.simps)
    (simp add: rngSeven_def treeSeven_def initialGameState_def WORLD_SIZE_def sqrt_less_iff
      Let_def)

lemma placeTree_seven_again:
  "\<forall>n. rng n = 7 / 10 \<Longrightarrow>
   placeTree stations rng [treeSeven] attempts i = ([treeSeven], i + 3 * (200 - attempts))"
proof (induction stations rng "[treeSeven]" attempts i rule: placeTree.induct)
  case (1 stations rng attempts i)
  show ?case
  proof (cases "attempts < 200")
    case True
    have r: "rng i = 7 / 10" "rng (Suc i) = 7 / 10" "rng (Suc (Suc i)) = 7 / 10"
      using "1.prems" by blast+
    have "placeTree stations rng [treeSeven] attempts i =
          placeTree stations rng [treeSeven] (attempts + 1) (i + 3)"
      by (subst placeTree.simps)
        (simp add: True r treeSeven_def WORLD_SIZE_def sqrt_less_iff Let_def)
    also have "\<dots> = ([treeSeven], i + 3 + 3 * (200 - (attempts + 1)))"
      using "1.hyps" [OF True refl refl refl refl refl refl _ "1.prems"]
      by (simp add: r treeSeven_def WORLD_SIZE_def sqrt_less_iff)
    finally show ?thesis using True by simp
  next
    case False
    then show ?thesis by (subst placeTree.simps) simp
  qed
qed

lemma generateTreesLoop_seven:
  "\<forall>k. rng k = 7 / 10 \<Longrightarrow> fst (generateTreesLoop stations rng n ([treeSeven], i)) = [treeSeven]"
proof (induction stations rng n "([treeSeven], i)" arbitrary: i rule: generateTreesLoop.induct)
  case (1 stations rng n)
  show ?case
  proof (cases "n < 40")
    case True
    have "fst (generateTreesLoop stations rng (n + 1) ([treeSeven], i + 600)) = [treeSeven]"
      using "1.hyps" [of "i + 600"] True "1.prems" by (simp add: placeTree_seven_again)
    then show ?thesis
      using True "1.prems" by (subst generateTreesLoop.simps) (simp add: placeTree_seven_again)
  next
    case False
    then show ?thesis by (subst generateTreesLoop.simps) simp
  qed
qed

lemma generateTrees_seven:
  "fst (generateTrees (refillStations initialGameState) rngSeven i) = [treeSeven]"
  unfolding generateTrees_def
  by (subst generateTreesLoop.simps)
    (simp add: placeTree_seven_first generateTreesLoop_seven rngSeven_def)

lemma generateTrees_centre: "fst (generateTrees stations rngHalf i) = []"
  unfolding generateTrees_def by (rule generateTreesLoop_centre) (simp add: rngHalf_def)

text \<open>
  C5. Seed fires have a fallback, trees have none. In a round of initializeFires whose
  placement loop fails, a cell is still written: at the key of a freshly drawn,
  unconstrained position, with that position snapped to the grid (it may replace a cell
  that holds the key). In generateTrees a tree whose 200 attempts all fail is skipped:
  placeTree returns the list as it was or with one tree added that is at least 8 from
  the centre and at least 5 from every station, so every tree of the result is placed
  under the constraints and the result has at most 40 trees, possibly fewer. Neither
  function can block: the number of random draws is bounded (1705 for each of the 5
  fires, 600 for each of the 40 trees).
\<close>

theorem placement_fallback:
  fixes rng :: "nat \<Rightarrow> real" and fs :: FireMap and i j k attempts :: nat and r :: Refs
    and stations :: "RefillStation list" and ts :: "Tree list"
  defines "x0 \<equiv> (rng j - 0.5) * (WORLD_SIZE - 10)"
  defines "z0 \<equiv> (rng (j + 1) - 0.5) * (WORLD_SIZE - 10)"
  defines "l \<equiv> placeFire rng fs 0 (j + 2) (x0, z0, gridKey x0 z0)"
  defines "xf \<equiv> (rng (snd (snd l)) - 0.5) * (WORLD_SIZE - 10)"
  defines "zf \<equiv> (rng (snd (snd l) + 1) - 0.5) * (WORLD_SIZE - 10)"
  shows "(\<not> fst l \<longrightarrow>
            map_of (fst (initFire rng (fs, j))) (gridKey xf zf) =
              Some \<lparr>fx = snap xf, fz = snap zf,
                    intensity = rng (snd (snd l) + 2) * 0.5 + 0.5, spreadTime = 0,
                    mesh = Some 300\<rparr>) \<and>
         snd (initializeFires r rng i) \<le> i + 1705 * INITIAL_FIRES \<and>
         (fst (placeTree stations rng ts attempts k) = ts \<or>
          (\<exists>t. fst (placeTree stations rng ts attempts k) = ts @ [t] \<and> clearOf stations t)) \<and>
         length (fst (generateTrees stations rng i)) \<le> 40 \<and>
         (\<forall>t\<in>set (fst (generateTrees stations rng i)). clearOf stations t) \<and>
         snd (generateTrees stations rng i) \<le> i + 600 * 40"
proof -
  have a: "\<not> fst l \<Longrightarrow>
            map_of (fst (initFire rng (fs, j))) (gridKey xf zf) =
              Some \<lparr>fx = snap xf, fz = snap zf,
                    intensity = rng (snd (snd l) + 2) * 0.5 + 0.5, spreadTime = 0,
                    mesh = Some 300\<rparr>"
    unfolding l_def x0_def z0_def xf_def zf_def
    by (simp add: initFire_def Let_def mapSet_lookup)
  have b: "snd (initializeFires r rng i) \<le> i + 1705 * INITIAL_FIRES"
    using initLoop_draws [of INITIAL_FIRES rng "([], i)"] by (simp add: initializeFires_def)
  have c: "fst (placeTree stations rng ts attempts k) = ts \<or>
          (\<exists>t. fst (placeTree stations rng ts attempts k) = ts @ [t] \<and> clearOf stations t)"
    by (rule placeTree_result)
  have d: "length (fst (generateTrees stations rng i)) \<le> 40 \<and>
         (\<forall>t\<in>set (fst (generateTrees stations rng i)). clearOf stations t)"
    unfolding generateTrees_def by (rule generateTreesLoop_inv) simp_all
  have e: "snd (generateTrees stations rng i) \<le> i + 600 * 40"
    using generateTreesLoop_draws [of stations rng 0 "([], i)"] by (simp add: generateTrees_def)
  show ?thesis using a b c d e by blast
qed

theorem placement_fallback_witness:
  "\<not> fst (placeFire rngHalf centreFire 0 2 (0, 0, ''0-0'')) \<and>
   map_of (fst (initFire rngHalf (centreFire, 0))) ''0-0'' =
     Some \<lparr>fx = 0, fz = 0, intensity = 0.75, spreadTime = 0, mesh = Some 300\<rparr> \<and>
   fst (generateTrees (refillStations initialGameState) rngSeven 0) = [treeSeven] \<and>
   clearOf (refillStations initialGameState) treeSeven"
proof -
  have h: "mapHas ''0-0'' centreFire" by (simp add: mapHas_def centreFire_def)
  have "\<forall>t\<in>set (fst (generateTrees (refillStations initialGameState) rngSeven 0)).
          clearOf (refillStations initialGameState) t"
    using placement_fallback [where stations = "refillStations initialGameState"
        and rng = rngSeven and i = 0] by blast
  then have "clearOf (refillStations initialGameState) treeSeven"
    by (simp add: generateTrees_seven)
  then show ?thesis
    by (simp add: placeFire_occupied [OF h] initFire_again generateTrees_seven)
      (simp add: centreFire_def)
qed

text \<open>
  The claim fails for trees: when every draw is 1/2 each candidate is the world centre,
  all 40 times 200 attempts fail, and generateTrees returns no tree at all.
\<close>

theorem generateTrees_skips_counterexample:
  "fst (generateTrees (refillStations initialGameState) rngHalf 0) = []"
  by (rule generateTrees_centre)

section \<open>What a tick preserves\<close>

lemma refillLoop_maxWater [simp]: "maxWater (refillLoop ss pl dt) = maxWater pl"
  by (induction ss) auto

lemma refillLoop_water:
  "0 \<le> dt \<Longrightarrow> 0 \<le> waterLevel pl \<Longrightarrow> waterLevel pl \<le> maxWater pl \<Longrightarrow>
   0 \<le> waterLevel (refillLoop ss pl dt) \<and> waterLevel (refillLoop ss pl dt) \<le> maxWater pl"
  by (induction ss) (auto simp: REFILL_RATE_def)

lemma updatePlayer_maxWater: "maxWater (updatePlayer g ks pl dt) = maxWater pl"
  by (simp add: updatePlayer_def Let_def)

lemma updatePlayer_water:
  assumes "0 \<le> dt" and "0 \<le> waterLevel pl" and "waterLevel pl \<le> maxWater pl"
  shows "0 \<le> waterLevel (updatePlayer g ks pl dt) \<and>
         waterLevel (updatePlayer g ks pl dt) \<le> maxWater pl"
proof -
  define p2 where "p2 = (if '' '' \<in> ks \<and> waterLevel pl > 0
     then pl\<lparr>rotation := turn ks (rotation pl) dt,
             position := movePlayer g ks (position pl) (turn ks (rotation pl) dt) dt,
             waterLevel := max 0 (waterLevel pl - 30 * dt), isRefilling := False\<rparr>
     else pl\<lparr>rotation := turn ks (rotation pl) dt,
             position := movePlayer g ks (position pl) (turn ks (rotation pl) dt) dt,
             isRefilling := False\<rparr>)"
  have u: "updatePlayer g ks pl dt = refillLoop (refillStations g) p2 dt"
    by (simp add: updatePlayer_def Let_def p2_def)
  have "0 \<le> waterLevel p2" and "waterLevel p2 \<le> maxWater p2" and "maxWater p2 = maxWater pl"
    using assms by (auto simp: p2_def)
  then show ?thesis
    unfolding u using refillLoop_water [OF assms(1), of p2 "refillStations g"] by simp
qed

lemma movePlayer_bounds:
  "\<bar>vx pos\<bar> \<le> WORLD_SIZE / 2 - 2 \<Longrightarrow> \<bar>vz pos\<bar> \<le> WORLD_SIZE / 2 - 2 \<Longrightarrow>
   \<bar>vx (movePlayer g ks pos rot dt)\<bar> \<le> WORLD_SIZE / 2 - 2 \<and>
   \<bar>vz (movePlayer g ks pos rot dt)\<bar> \<le> WORLD_SIZE / 2 - 2"
  using clampWorld_bounds by (simp add: movePlayer_def Let_def)

lemma updateFire_cells:
  assumes n: "n < length m" and m: "\<forall>e\<in>set m. Q (intensity (snd e))"
    and grow: "\<And>v. Q v \<Longrightarrow> Q (min 1 (v + dt * 0.1))"
    and new: "Q 0.3"
  shows "\<forall>e\<in>set (fst (updateFire g rng dt n (m, i))). Q (intensity (snd e))"
proof -
  define fire where "fire = snd (m ! n)"
  have pf: "Q (min 1 (intensity fire + dt * 0.1))"
    using n m grow by (simp add: fire_def)
  have upd: "\<forall>e\<in>set (m[n := (k, f)]). Q (intensity (snd e))" if "Q (intensity f)" for k f
    using m that set_update_subset_insert [of m n "(k, f)"] by auto
  show ?thesis
  proof (cases "spreadDue g (fire\<lparr>spreadTime := spreadTime fire + dt,
                                  intensity := min 1 (intensity fire + dt * 0.1)\<rparr>)")
    case False
    then have "fst (updateFire g rng dt n (m, i)) =
        m[n := (fst (m ! n), fire\<lparr>spreadTime := spreadTime fire + dt,
                                   intensity := min 1 (intensity fire + dt * 0.1)\<rparr>)]"
      by (simp add: updateFire_def Let_def fire_def)
    then show ?thesis
      using upd [of "fire\<lparr>spreadTime := spreadTime fire + dt,
                         intensity := min 1 (intensity fire + dt * 0.1)\<rparr>" "fst (m ! n)"] pf
      by simp
  next
    case True
    define f3 where "f3 = fire\<lparr>spreadTime := spreadTime fire + dt,
                              intensity := min 1 (intensity fire + dt * 0.1),
                              spreadTime := 0\<rparr>"
    define m0 where "m0 = m[n := (fst (m ! n), f3)]"
    have m0: "\<forall>e\<in>set m0. Q (intensity (snd e))"
      unfolding m0_def using upd [of f3 "fst (m ! n)"] pf by (simp add: f3_def)
    define c where "c = intensity f3 * windSpeed g * 0.2"
    define j where "j = (case mesh fire of None \<Rightarrow> i | Some particles \<Rightarrow> i + particles)"
    have "fst (updateFire g rng dt n (m, i)) = fst (spreadLoop g rng f3 c directions (m0, j))"
      using True by (simp add: updateFire_def Let_def fire_def f3_def m0_def c_def j_def)
    moreover obtain new where new: "fst (spreadLoop g rng f3 c directions (m0, j)) = fst (m0, j) @ new"
      "\<forall>e\<in>set new. \<not> mapHas (fst e) (fst (m0, j)) \<and>
            (\<exists>dir\<in>set directions. \<exists>ja. snd (m0, j) \<le> ja \<and>
               ja < snd (spreadLoop g rng f3 c directions (m0, j)) \<and> rng ja < c \<and>
               inWorld (spreadTarget g f3 dir) \<and>
               e = (gridKey (fst (spreadTarget g f3 dir)) (snd (spreadTarget g f3 dir)),
                    spreadCell (spreadTarget g f3 dir)))"
      using spreadLoop_new [of g rng f3 c directions "(m0, j)"] by blast
    have "\<forall>e\<in>set new. Q (intensity (snd e))"
    proof
      fix e assume "e \<in> set new"
      then obtain dir where "e = (gridKey (fst (spreadTarget g f3 dir)) (snd (spreadTarget g f3 dir)),
                    spreadCell (spreadTarget g f3 dir))"
        using new(2) by blast
      then show "Q (intensity (snd e))" using \<open>Q 0.3\<close> by (simp add: spreadCell_def)
    qed
    ultimately show ?thesis using m0 new(1) by auto
  qed
qed

lemma updateLoop_cells:
  "(\<And>v. Q v \<Longrightarrow> Q (min 1 (v + dt * 0.1))) \<Longrightarrow> Q 0.3 \<Longrightarrow>
   \<forall>e\<in>set (fst s). Q (intensity (snd e)) \<Longrightarrow>
   \<forall>e\<in>set (fst (updateLoop g rng dt n s)). Q (intensity (snd e))"
proof (induction g rng dt n s rule: updateLoop.induct)
  case (1 g rng dt n s)
  show ?case
  proof (cases "n < length (fst s)")
    case True
    have "\<forall>e\<in>set (fst (updateFire g rng dt n (fst s, snd s))). Q (intensity (snd e))"
      using True "1.prems" by (intro updateFire_cells) auto
    then have "\<forall>e\<in>set (fst (updateLoop g rng dt (n + 1) (updateFire g rng dt n s))).
                 Q (intensity (snd e))"
      using "1.IH" [OF True "1.prems"(1,2)] by simp
    then show ?thesis using True by (subst updateLoop.simps) simp
  next
    case False
    then show ?thesis using "1.prems" by (subst updateLoop.simps) simp
  qed
qed

lemma suppressLoop_cells:
  assumes "\<And>v. Q v \<Longrightarrow> 0 < v - 1.5 * dt \<Longrightarrow> Q (v - 1.5 * dt)"
  shows "\<forall>e\<in>set m. Q (intensity (snd e)) \<Longrightarrow>
         \<forall>e\<in>set (suppressLoop pl dt m). Q (intensity (snd e))"
  using assms by (induction m) (auto simp: Let_def not_le)

lemma tick_cells:
  assumes grow: "\<And>v. Q v \<Longrightarrow> Q (min 1 (v + dt * 0.1))"
    and new: "Q 0.3"
    and less: "\<And>v. Q v \<Longrightarrow> 0 < v - 1.5 * dt \<Longrightarrow> Q (v - 1.5 * dt)"
    and m: "\<forall>e\<in>set m. Q (intensity (snd e))"
  shows "\<forall>e\<in>set (checkWaterFireCollision r pl (fst (updateFires g r rng i m dt)) dt).
           Q (intensity (snd e))"
proof -
  have "\<forall>e\<in>set (fst (updateFires g r rng i m dt)). Q (intensity (snd e))"
    using updateLoop_cells [where Q = Q and dt = dt and s = "(m, i)" and g = g and rng = rng
        and n = 0, OF grow new] m
    by (simp add: updateFires_def)
  then show ?thesis
    using suppressLoop_cells [where Q = Q and dt = dt and pl = pl, OF less]
    by (simp add: checkWaterFireCollision_def)
qed

lemma updateLoop_single:
  "gameSpeed g = 1 \<Longrightarrow> spreadTime f + dt \<le> 4 \<Longrightarrow>
   updateLoop g rng dt 0 ([(k, f)], i) =
     ([(k, f\<lparr>spreadTime := spreadTime f + dt, intensity := min 1 (intensity f + dt * 0.1)\<rparr>)],
      (case mesh f of None \<Rightarrow> i | Some c \<Rightarrow> i + c))"
  by (subst updateLoop.simps, subst updateLoop.simps)
    (simp add: updateFire_def spreadDue_def FIRE_SPREAD_RATE_def Let_def)

lemma idle_player:
  "refillStations g = refillStations initialGameState \<Longrightarrow>
   updatePlayer g {} originPlayer dt = originPlayer"
  by (simp add: updatePlayer_def turn_def movePlayer_def moveVector_def initialGameState_def
      originPlayer_def distance3D_def sqrt_less_iff Let_def)

lemma shooting_player:
  "refillStations g = refillStations initialGameState \<Longrightarrow>
   updatePlayer g {'' ''} originPlayer (- 10) = originPlayer\<lparr>waterLevel := 400\<rparr>"
  by (simp add: updatePlayer_def turn_def movePlayer_def moveVector_def initialGameState_def
      originPlayer_def distance3D_def sqrt_less_iff REFILL_RATE_def Let_def)

lemma sceneA_simps:
  "player sceneA = originPlayer" "fires sceneA = oneFire 0.5" "timeElapsed sceneA = 0"
  by (simp_all add: sceneA_def treeScene_def initialGameState_def originPlayer_def)

lemma treeScene_simps:
  "gameStatus (treeScene ts) = Playing" "gameSpeed (treeScene ts) = 1"
  "refillStations (treeScene ts) = refillStations initialGameState"
  by (simp_all add: treeScene_def initialGameState_def)

text \<open>
  C1. gameLoop computes deltaTime as (currentTime - lastFrameTime) / 1000 and hands it to
  every stage as it is: the new player is updatePlayer at that deltaTime (rotation,
  movement, water depletion and refill), the new fire map is checkWaterFireCollision
  (suppression damage) of updateFires (intensity growth), both at that deltaTime, and
  the elapsed time grows by it, whatever its sign. Nothing clamps it. When deltaTime is not negative,
  a tick keeps intensities that were not negative so, and keeps a water level inside
  [0, maxWater] inside.
\<close>

theorem gameLoop_deltaTime:
  fixes g prevState :: GameState and r :: Refs and rng :: "nat \<Rightarrow> real" and i :: nat
    and currentTime :: real
  defines "deltaTime \<equiv> (currentTime - lastFrameTimeRef r) / 1000"
  defines "s' \<equiv> fst (gameLoop g r rng i currentTime prevState)"
  shows "(gameStatus g = Playing \<longrightarrow>
            player s' = updatePlayer g (keysRef r) (player prevState) deltaTime \<and>
            fires s' = checkWaterFireCollision r (player s')
                         (fst (updateFires g r rng (i + updatePlayerDraws r (player prevState))
                                 (fires prevState) deltaTime)) deltaTime \<and>
            timeElapsed s' = timeElapsed prevState + deltaTime) \<and>
         (0 \<le> deltaTime \<and> (\<forall>e\<in>set (fires prevState). 0 \<le> intensity (snd e)) \<longrightarrow>
            (\<forall>e\<in>set (fires s'). 0 \<le> intensity (snd e))) \<and>
         (0 \<le> deltaTime \<and> 0 \<le> waterLevel (player prevState) \<and>
          waterLevel (player prevState) \<le> maxWater (player prevState) \<longrightarrow>
            0 \<le> waterLevel (player s') \<and> waterLevel (player s') \<le> maxWater (player s'))"
proof (cases "gameStatus g = Playing")
  case False
  then have "s' = prevState" by (simp add: s'_def gameLoop_def Let_def)
  then show ?thesis using False by simp
next
  case True
  have p: "player s' = updatePlayer g (keysRef r) (player prevState) deltaTime"
    and t: "timeElapsed s' = timeElapsed prevState + deltaTime"
    and f: "fires s' = checkWaterFireCollision r (player s')
              (fst (updateFires g r rng (i + updatePlayerDraws r (player prevState))
                      (fires prevState) deltaTime)) deltaTime"
    using True by (simp_all add: s'_def deltaTime_def gameLoop_def Let_def)
  have a: "\<forall>e\<in>set (fires s'). 0 \<le> intensity (snd e)"
    if "0 \<le> deltaTime" and "\<forall>e\<in>set (fires prevState). 0 \<le> intensity (snd e)"
    unfolding f using that by (intro tick_cells [where Q = "\<lambda>v. 0 \<le> v"]) auto
  have b: "0 \<le> waterLevel (player s') \<and> waterLevel (player s') \<le> maxWater (player s')"
    if "0 \<le> deltaTime" and "0 \<le> waterLevel (player prevState)"
      and "waterLevel (player prevState) \<le> maxWater (player prevState)"
    unfolding p using updatePlayer_water [OF that] by (simp add: updatePlayer_maxWater)
  show ?thesis using p f t a b by blast
qed

theorem gameLoop_deltaTime_witness:
  "gameStatus (treeScene []) = Playing \<and>
   0 \<le> (100 - lastFrameTimeRef idleRefs) / 1000 \<and>
   fires sceneA =
     [(''0--2'', \<lparr>fx = 0, fz = -4, intensity = 0.5, spreadTime = 0, mesh = Some 300\<rparr>)] \<and>
   0 \<le> waterLevel (player sceneA) \<and> waterLevel (player sceneA) \<le> maxWater (player sceneA) \<and>
   fires (fst (gameLoop (treeScene []) idleRefs rngHalf 0 100 sceneA)) =
     [(''0--2'', \<lparr>fx = 0, fz = -4, intensity = 0.51, spreadTime = 0.1, mesh = Some 300\<rparr>)] \<and>
   waterLevel (player (fst (gameLoop (treeScene []) idleRefs rngHalf 0 100 sceneA))) = 100 \<and>
   timeElapsed (fst (gameLoop (treeScene []) idleRefs rngHalf 0 100 sceneA)) = 0.1"
proof -
  have k: "keysRef idleRefs = {}" "sceneRef idleRefs" "lastFrameTimeRef idleRefs = 0"
    by (simp_all add: idleRefs_def)
  have f: "fires (fst (gameLoop (treeScene []) idleRefs rngHalf 0 100 sceneA)) =
     [(''0--2'', \<lparr>fx = 0, fz = -4, intensity = 0.51, spreadTime = 0.1, mesh = Some 300\<rparr>)]"
    by (simp add: gameLoop_def k sceneA_simps treeScene_simps updateFires_def oneFire_def
        updateLoop_single checkWaterFireCollision_def Let_def)
  have "timeElapsed (fst (gameLoop (treeScene []) idleRefs rngHalf 0 100 sceneA)) = 0.1 \<and>
        player (fst (gameLoop (treeScene []) idleRefs rngHalf 0 100 sceneA)) = originPlayer"
    using gameLoop_deltaTime [where g = "treeScene []" and r = idleRefs and rng = rngHalf
        and i = 0 and currentTime = 100 and prevState = sceneA]
    by (simp add: k sceneA_simps treeScene_simps idle_player)
  then show ?thesis
    using f by (simp add: k sceneA_simps treeScene_simps oneFire_def)
qed

text \<open>
  With a time stamp 10 seconds before the previous one, deltaTime is -10 and is used as
  it is: a fire of intensity 1/2 ends the tick at -1/2, and a player who shoots ends it
  with a water level of 400, above maxWater = 100.
\<close>

theorem gameLoop_negative_deltaTime_counterexample:
  "(0 - lastFrameTimeRef (lateRefs {})) / 1000 = - 10 \<and>
   fires sceneA =
     [(''0--2'', \<lparr>fx = 0, fz = -4, intensity = 1 / 2, spreadTime = 0, mesh = Some 300\<rparr>)] \<and>
   fires (fst (gameLoop (treeScene []) (lateRefs {}) rngHalf 0 0 sceneA)) =
     [(''0--2'', \<lparr>fx = 0, fz = -4, intensity = - (1 / 2), spreadTime = - 10, mesh = Some 300\<rparr>)] \<and>
   waterLevel (player sceneA) = 100 \<and> maxWater (player sceneA) = 100 \<and>
   waterLevel (player (fst (gameLoop (treeScene []) (lateRefs {'' ''}) rngHalf 0 0 sceneA))) = 400 \<and>
   maxWater (player (fst (gameLoop (treeScene []) (lateRefs {'' ''}) rngHalf 0 0 sceneA))) = 100"
  by (simp add: gameLoop_def lateRefs_def sceneA_simps treeScene_simps updateFires_def oneFire_def
      updateLoop_single checkWaterFireCollision_def idle_player shooting_player Let_def)

text \<open>
  The states the game can be in: the state at mount, and from a reachable state the
  result of startGame or resetGame (with a random source that stays in [0, 1), as
  \<^verbatim>\<open>Math.random\<close> does) and of a tick of gameLoop whose time stamp is not before the
  previous one. The refs and the state that a callback closed over are not constrained.
\<close>

inductive reachable :: "GameState \<Rightarrow> bool" where
  mount: "reachable initialGameState"
| start: "reachable s \<Longrightarrow> \<forall>n. 0 \<le> rng n \<and> rng n < 1 \<Longrightarrow> reachable (fst (startGame r rng i s))"
| reset: "reachable s \<Longrightarrow> \<forall>n. 0 \<le> rng n \<and> rng n < 1 \<Longrightarrow> reachable (fst (resetGame g r rng i s))"
| tick: "reachable s \<Longrightarrow> lastFrameTimeRef r \<le> currentTime \<Longrightarrow>
         reachable (fst (gameLoop g r rng i currentTime s))"

lemma mapSet_set: "set (mapSet k v m) \<subseteq> insert (k, v) (set m)"
  by (induction m) auto

lemma mapSet_cells:
  "Q (intensity v) \<Longrightarrow> \<forall>e\<in>set m. Q (intensity (snd e)) \<Longrightarrow>
   \<forall>e\<in>set (mapSet k v m). Q (intensity (snd e))"
  by (induction m) auto

lemma initFire_cells:
  assumes "\<forall>n. 0 \<le> rng n \<and> rng n < 1"
    and "\<forall>e\<in>set (fst s). 0 \<le> intensity (snd e) \<and> intensity (snd e) \<le> 1"
  shows "\<forall>e\<in>set (fst (initFire rng s)). 0 \<le> intensity (snd e) \<and> intensity (snd e) \<le> 1"
proof -
  define x0 where "x0 = (rng (snd s) - 0.5) * (WORLD_SIZE - 10)"
  define z0 where "z0 = (rng (snd s + 1) - 0.5) * (WORLD_SIZE - 10)"
  define l where "l = placeFire rng (fst s) 0 (snd s + 2) (x0, z0, gridKey x0 z0)"
  define xf where "xf = (rng (snd (snd l)) - 0.5) * (WORLD_SIZE - 10)"
  define zf where "zf = (rng (snd (snd l) + 1) - 0.5) * (WORLD_SIZE - 10)"
  define x where "x = (if \<not> fst l then xf else fst (fst (snd l)))"
  define z where "z = (if \<not> fst l then zf else fst (snd (fst (snd l))))"
  define key where "key = (if \<not> fst l then gridKey xf zf else snd (snd (fst (snd l))))"
  define i2 where "i2 = (if \<not> fst l then snd (snd l) + 2 else snd (snd l))"
  define cell where "cell = \<lparr>fx = snap x, fz = snap z, intensity = rng i2 * 0.5 + 0.5,
                               spreadTime = 0, mesh = Some 300\<rparr>"
  have eq: "fst (initFire rng s) = mapSet key cell (fst s)"
    unfolding initFire_def cell_def i2_def key_def z_def x_def zf_def xf_def l_def z0_def x0_def
    by (simp add: Let_def)
  have "0 \<le> intensity cell \<and> intensity cell \<le> 1"
    using assms(1) [rule_format, of i2] by (simp add: cell_def)
  then show ?thesis
    unfolding eq using assms(2)
    by (intro mapSet_cells [where Q = "\<lambda>v. 0 \<le> v \<and> v \<le> 1"])
qed

lemma initLoop_cells:
  "\<forall>n. 0 \<le> rng n \<and> rng n < 1 \<Longrightarrow>
   \<forall>e\<in>set (fst s). 0 \<le> intensity (snd e) \<and> intensity (snd e) \<le> 1 \<Longrightarrow>
   \<forall>e\<in>set (fst (initLoop n rng s)). 0 \<le> intensity (snd e) \<and> intensity (snd e) \<le> 1"
proof (induction n arbitrary: s)
  case 0
  then show ?case by simp
next
  case (Suc n)
  have "\<forall>e\<in>set (fst (initFire rng s)). 0 \<le> intensity (snd e) \<and> intensity (snd e) \<le> 1"
    using Suc.prems by (rule initFire_cells)
  then have "\<forall>e\<in>set (fst (initLoop n rng (initFire rng s))).
               0 \<le> intensity (snd e) \<and> intensity (snd e) \<le> 1"
    by (rule Suc.IH [OF Suc.prems(1)])
  then show ?case by (simp only: initLoop.simps)
qed

lemma initializeFires_cells:
  "\<forall>n. 0 \<le> rng n \<and> rng n < 1 \<Longrightarrow>
   \<forall>e\<in>set (fst (initializeFires r rng i)). 0 \<le> intensity (snd e) \<and> intensity (snd e) \<le> 1"
proof -
  assume r: "\<forall>n. 0 \<le> rng n \<and> rng n < 1"
  have "\<forall>e\<in>set (fst (initLoop INITIAL_FIRES rng ([], i))).
          0 \<le> intensity (snd e) \<and> intensity (snd e) \<le> 1"
    by (rule initLoop_cells [OF r]) simp
  then show ?thesis by (simp add: initializeFires_def)
qed

definition playInvariant :: "GameState \<Rightarrow> bool" where 
  "playInvariant s =
     ((\<forall>e\<in>set (fires s). 0 \<le> intensity (snd e) \<and> intensity (snd e) \<le> 1) \<and>
      0 \<le> waterLevel (player s) \<and> waterLevel (player s) \<le> maxWater (player s) \<and>
      maxWater (player s) = 100 \<and>
      \<bar>vx (position (player s))\<bar> \<le> WORLD_SIZE / 2 - 2 \<and>
      \<bar>vz (position (player s))\<bar> \<le> WORLD_SIZE / 2 - 2)"

lemma startGame_invariant:
  "\<forall>n. 0 \<le> rng n \<and> rng n < 1 \<Longrightarrow> maxWater (player s) = 100 \<Longrightarrow>
   playInvariant (fst (startGame r rng i s))"
  using initializeFires_cells [of rng r i]
  by (simp add: playInvariant_def startGame_def Let_def WORLD_SIZE_def)

lemma regenerateTrees_player: "player (fst (regenerateTrees g r rng i s)) = player s"
  by (simp add: regenerateTrees_def Let_def)

lemma gameLoop_invariant:
  assumes "playInvariant s" and "lastFrameTimeRef r \<le> currentTime"
  shows "playInvariant (fst (gameLoop g r rng i currentTime s))"
proof (cases "gameStatus g = Playing")
  case False
  then show ?thesis using assms(1) by (simp add: gameLoop_def Let_def)
next
  case True
  define dt where "dt = (currentTime - lastFrameTimeRef r) / 1000"
  define s' where "s' = fst (gameLoop g r rng i currentTime s)"
  have dt: "0 \<le> dt" using assms(2) by (simp add: dt_def)
  have p: "player s' = updatePlayer g (keysRef r) (player s) dt"
    and f: "fires s' = checkWaterFireCollision r (player s')
              (fst (updateFires g r rng (i + updatePlayerDraws r (player s)) (fires s) dt)) dt"
    using True by (simp_all add: s'_def dt_def gameLoop_def Let_def)
  have inv: "\<forall>e\<in>set (fires s). 0 \<le> intensity (snd e) \<and> intensity (snd e) \<le> 1"
    "0 \<le> waterLevel (player s)" "waterLevel (player s) \<le> maxWater (player s)"
    "maxWater (player s) = 100"
    "\<bar>vx (position (player s))\<bar> \<le> WORLD_SIZE / 2 - 2"
    "\<bar>vz (position (player s))\<bar> \<le> WORLD_SIZE / 2 - 2"
    using assms(1) by (simp_all add: playInvariant_def)
  have a: "\<forall>e\<in>set (fires s'). 0 \<le> intensity (snd e) \<and> intensity (snd e) \<le> 1"
    unfolding f using dt inv(1)
    by (intro tick_cells [where Q = "\<lambda>v. 0 \<le> v \<and> v \<le> 1"]) auto
  have b: "0 \<le> waterLevel (player s') \<and> waterLevel (player s') \<le> maxWater (player s') \<and>
           maxWater (player s') = 100"
    unfolding p using updatePlayer_water [OF dt inv(2,3)] inv(4)
    by (simp add: updatePlayer_maxWater)
  have c: "\<bar>vx (position (player s'))\<bar> \<le> WORLD_SIZE / 2 - 2 \<and>
           \<bar>vz (position (player s'))\<bar> \<le> WORLD_SIZE / 2 - 2"
    unfolding p updatePlayer_position by (rule movePlayer_bounds [OF inv(5,6)])
  show ?thesis using a b c unfolding s'_def by (simp add: playInvariant_def)
qed

lemma reachable_playInvariant: "reachable s \<Longrightarrow> playInvariant s"
proof (induction rule: reachable.induct)
  case mount
  show ?case by (simp add: playInvariant_def initialGameState_def WORLD_SIZE_def)
next
  case (start s rng r i)
  have "maxWater (player s) = 100"
    using start.IH by (simp add: playInvariant_def)
  then show ?case
    using start.hyps(2) by (intro startGame_invariant)
next
  case (reset s rng g r i)
  have "maxWater (player (fst (regenerateTrees g r rng i s))) = 100"
    using reset.IH by (simp add: regenerateTrees_player playInvariant_def)
  then show ?case
    unfolding resetGame_def Let_def using reset.hyps(2) by (intro startGame_invariant)
next
  case (tick s r currentTime g rng i)
  then show ?case by (intro gameLoop_invariant)
qed

text \<open>
  C2. In every reachable state (ticks whose deltaTime is not negative) every fire cell
  of the map has an intensity in [0, 1], the water level of the player is in
  [0, maxWater], and the player is inside the world bounds less the margin:
  |x| and |z| are at most WORLD_SIZE / 2 - 2.
\<close>

theorem reachable_invariant:
  assumes "reachable s"
  shows "(\<forall>e\<in>set (fires s). 0 \<le> intensity (snd e) \<and> intensity (snd e) \<le> 1) \<and>
         0 \<le> waterLevel (player s) \<and> waterLevel (player s) \<le> maxWater (player s) \<and>
         \<bar>vx (position (player s))\<bar> \<le> WORLD_SIZE / 2 - 2 \<and>
         \<bar>vz (position (player s))\<bar> \<le> WORLD_SIZE / 2 - 2"
  using reachable_playInvariant [OF assms] by (simp add: playInvariant_def)

lemma startState_simps:
  "fires startState = centreFire" "player startState = originPlayer"
  "gameStatus startState = Playing" "gameSpeed startState = 1"
  "refillStations startState = refillStations initialGameState"
  by (simp_all add: startState_def startGame_def initializeFires_half shootRefs_def Let_def
      initialGameState_def originPlayer_def)

lemma reachable_startState: "reachable startState"
  unfolding startState_def by (rule reachable.start [OF reachable.mount]) (simp add: rngHalf_def)

theorem reachable_invariant_witness:
  "reachable (fst (gameLoop startState idleRefs rngHalf 0 100 startState)) \<and>
   fires (fst (gameLoop startState idleRefs rngHalf 0 100 startState)) =
     [(''0-0'', \<lparr>fx = 0, fz = 0, intensity = 0.76, spreadTime = 0.1, mesh = Some 300\<rparr>)] \<and>
   0 \<le> waterLevel (player (fst (gameLoop startState idleRefs rngHalf 0 100 startState))) \<and>
   waterLevel (player (fst (gameLoop startState idleRefs rngHalf 0 100 startState))) \<le>
     maxWater (player (fst (gameLoop startState idleRefs rngHalf 0 100 startState))) \<and>
   \<bar>vx (position (player (fst (gameLoop startState idleRefs rngHalf 0 100 startState))))\<bar> \<le>
     WORLD_SIZE / 2 - 2 \<and>
   \<bar>vz (position (player (fst (gameLoop startState idleRefs rngHalf 0 100 startState))))\<bar> \<le>
     WORLD_SIZE / 2 - 2 \<and>
   waterLevel (player (fst (gameLoop startState idleRefs rngHalf 0 100 startState))) = 100 \<and>
   maxWater (player (fst (gameLoop startState idleRefs rngHalf 0 100 startState))) = 100 \<and>
   position (player (fst (gameLoop startState idleRefs rngHalf 0 100 startState))) =
     \<lparr>vx = 0, vy = 0, vz = 0\<rparr>"
proof -
  have k: "keysRef idleRefs = {}" "sceneRef idleRefs" "lastFrameTimeRef idleRefs = 0"
    by (simp_all add: idleRefs_def)
  have r: "reachable (fst (gameLoop startState idleRefs rngHalf 0 100 startState))"
    by (rule reachable.tick [OF reachable_startState]) (simp add: k)
  have f: "fires (fst (gameLoop startState idleRefs rngHalf 0 100 startState)) =
     [(''0-0'', \<lparr>fx = 0, fz = 0, intensity = 0.76, spreadTime = 0.1, mesh = Some 300\<rparr>)]"
    by (simp add: gameLoop_def k startState_simps updateFires_def centreFire_def
        updateLoop_single checkWaterFireCollision_def Let_def)
  have p: "player (fst (gameLoop startState idleRefs rngHalf 0 100 startState)) = originPlayer"
    by (simp add: gameLoop_def k startState_simps idle_player Let_def)
  show ?thesis
    using reachable_invariant [OF r] r f p by simp
qed

text \<open>
  Without the restriction on deltaTime the invariant fails: from the state right after
  startGame, a tick whose time stamp is 10 seconds before the previous one leaves a fire
  cell of intensity -1/4 in the map.
\<close>

theorem negative_deltaTime_breaks_invariant_counterexample:
  "reachable startState \<and>
   fires startState =
     [(''0-0'', \<lparr>fx = 0, fz = 0, intensity = 3 / 4, spreadTime = 0, mesh = Some 300\<rparr>)] \<and>
   (0 - lastFrameTimeRef (lateRefs {})) / 1000 = - 10 \<and>
   fires (fst (gameLoop startState (lateRefs {}) rngHalf 0 0 startState)) =
     [(''0-0'', \<lparr>fx = 0, fz = 0, intensity = - (1 / 4), spreadTime = - 10, mesh = Some 300\<rparr>)]"
  using reachable_startState
  by (simp add: gameLoop_def lateRefs_def startState_simps updateFires_def centreFire_def
      updateLoop_single checkWaterFireCollision_def Let_def)

section \<open>The spread in updateFires\<close>

lemma spreadLoop_attempt:
  "spreadLoop g rng fire c (dir # ds) s =
     spreadLoop g rng fire c ds (specSpreadAttempt g rng fire c dir s)"
  unfolding spreadLoop_step
  by (simp add: specSpreadAttempt_def Let_def spreadTarget_def inWorld_def spreadCell_def
      mapHas_def)

lemma spreadLoop_directions:
  "spreadLoop g rng fire c directions s =
     specSpreadAttempt g rng fire c (0, - GRID_SIZE)
       (specSpreadAttempt g rng fire c (0, GRID_SIZE)
         (specSpreadAttempt g rng fire c (- GRID_SIZE, 0)
           (specSpreadAttempt g rng fire c (GRID_SIZE, 0) s)))"
  unfolding directions_def by (simp only: spreadLoop_attempt spreadLoop.simps(1))

lemma updateFire_exact:
  "updateFire g rng dt n (m, j) =
     (let fire = snd (m ! n);
          grown = fire\<lparr>spreadTime := spreadTime fire + dt,
                        intensity := min 1 (intensity fire + dt * 0.1)\<rparr>;
          source = grown\<lparr>spreadTime := 0\<rparr>;
          chance = intensity grown * windSpeed g * 0.2;
          i1 = (case mesh fire of None \<Rightarrow> j | Some particles \<Rightarrow> j + particles)
      in if gameSpeed g \<noteq> 0 \<and> spreadTime grown > FIRE_SPREAD_RATE / gameSpeed g
         then specSpreadAttempt g rng source chance (0, - GRID_SIZE)
                (specSpreadAttempt g rng source chance (0, GRID_SIZE)
                  (specSpreadAttempt g rng source chance (- GRID_SIZE, 0)
                    (specSpreadAttempt g rng source chance (GRID_SIZE, 0)
                      (m[n := (fst (m ! n), source)], i1))))
         else (m[n := (fst (m ! n), grown)], i1))"
  by (simp add: updateFire_def Let_def spreadDue_def spreadLoop_directions)

lemma updateFire_nth:
  assumes "n < length (fst s)" and "k < length (fst s)"
  shows "fst (updateFire g rng dt n s) ! k =
           (if k = n then (fst (fst s ! n), tickCell g dt (snd (fst s ! n))) else fst s ! k)"
proof -
  define fire where "fire = snd (fst s ! n)"
  define grown where "grown = fire\<lparr>spreadTime := spreadTime fire + dt,
                                     intensity := min 1 (intensity fire + dt * 0.1)\<rparr>"
  define m0 where "m0 = (fst s)[n := (fst (fst s ! n), tickCell g dt fire)]"
  have "\<exists>new. fst (updateFire g rng dt n s) = m0 @ new"
  proof (cases "spreadDue g grown")
    case False
    then have "fst (updateFire g rng dt n s) = m0"
      by (simp add: updateFire_def Let_def m0_def tickCell_def fire_def grown_def)
    then show ?thesis by simp
  next
    case True
    define c where "c = intensity (grown\<lparr>spreadTime := 0\<rparr>) * windSpeed g * 0.2"
    define j where "j = (case mesh grown of None \<Rightarrow> snd s | Some particles \<Rightarrow> snd s + particles)"
    have "fst (updateFire g rng dt n s) =
        fst (spreadLoop g rng (grown\<lparr>spreadTime := 0\<rparr>) c directions (m0, j))"
      using True
      by (simp add: updateFire_def Let_def m0_def tickCell_def fire_def grown_def c_def j_def)
    then show ?thesis
      using spreadLoop_new [of g rng "grown\<lparr>spreadTime := 0\<rparr>" c directions "(m0, j)"]
      by auto
  qed
  then obtain new where "fst (updateFire g rng dt n s) = m0 @ new" by blast
  then show ?thesis
    using assms by (simp add: nth_append m0_def fire_def nth_list_update)
qed

lemma updateLoop_length: "length (fst s) \<le> length (fst (updateLoop g rng dt n s))"
proof (induction g rng dt n s rule: updateLoop.induct)
  case (1 g rng dt n s)
  show ?case
  proof (cases "n < length (fst s)")
    case True
    then show ?thesis
      using "1.IH" [OF True] updateFire_length [of s g rng dt n]
      by (subst updateLoop.simps) simp
  next
    case False
    then show ?thesis by (subst updateLoop.simps) simp
  qed
qed

lemma updateLoop_nth:
  "n \<le> length (fst s) \<Longrightarrow> k < length (fst s) \<Longrightarrow>
   fst (updateLoop g rng dt n s) ! k =
     (if n \<le> k then (fst (fst s ! k), tickCell g dt (snd (fst s ! k))) else fst s ! k)"
proof (induction g rng dt n s rule: updateLoop.induct)
  case (1 g rng dt n s)
  show ?case
  proof (cases "n < length (fst s)")
    case True
    define s1 where "s1 = updateFire g rng dt n s"
    have len: "length (fst s) \<le> length (fst s1)"
      unfolding s1_def by (rule updateFire_length)
    have nth: "fst s1 ! j = (if j = n then (fst (fst s ! n), tickCell g dt (snd (fst s ! n)))
                              else fst s ! j)" if "j < length (fst s)" for j
      unfolding s1_def using True that by (rule updateFire_nth)
    have "fst (updateLoop g rng dt (n + 1) s1) ! k =
       (if n + 1 \<le> k then (fst (fst s1 ! k), tickCell g dt (snd (fst s1 ! k))) else fst s1 ! k)"
      using "1.IH" [OF True] True len "1.prems"(2) unfolding s1_def by simp
    moreover have "updateLoop g rng dt n s = updateLoop g rng dt (n + 1) s1"
      using True by (subst updateLoop.simps) (simp add: s1_def)
    ultimately have r: "fst (updateLoop g rng dt n s) ! k =
       (if n + 1 \<le> k then (fst (fst s1 ! k), tickCell g dt (snd (fst s1 ! k))) else fst s1 ! k)"
      by simp
    consider "k < n" | "k = n" | "n < k" by linarith
    then show ?thesis
    proof cases
      case 1
      then show ?thesis using r nth [OF "1.prems"(2)] by simp
    next
      case 2
      then show ?thesis using r nth [OF "1.prems"(2)] by simp
    next
      case 3
      then show ?thesis using r nth [OF "1.prems"(2)] by simp
    qed
  next
    case False
    then show ?thesis
      using "1.prems" by (subst updateLoop.simps) simp
  qed
qed

lemma updateLoop_rounds:
  "s = rounds g rng dt n s0 \<Longrightarrow> n \<le> length (fst s) \<Longrightarrow>
   \<forall>k<n. k < length (fst (rounds g rng dt k s0)) \<Longrightarrow>
   updateLoop g rng dt n s = rounds g rng dt (length (fst (updateLoop g rng dt n s))) s0 \<and>
   (\<forall>k<length (fst (updateLoop g rng dt n s)). k < length (fst (rounds g rng dt k s0)))"
proof (induction g rng dt n s rule: updateLoop.induct)
  case (1 g rng dt n s)
  show ?case
  proof (cases "n < length (fst s)")
    case True
    define s1 where "s1 = updateFire g rng dt n s"
    have a: "s1 = rounds g rng dt (n + 1) s0"
      using "1.prems"(1) by (simp add: s1_def)
    have b: "n + 1 \<le> length (fst s1)"
      using True updateFire_length [of s g rng dt n] by (simp add: s1_def)
    have c: "\<forall>k<n + 1. k < length (fst (rounds g rng dt k s0))"
      using "1.prems"(1,3) True by (auto simp: less_Suc_eq)
    have eq: "updateLoop g rng dt n s = updateLoop g rng dt (n + 1) s1"
      using True by (subst updateLoop.simps) (simp add: s1_def)
    show ?thesis
      unfolding eq using "1.IH" [OF True a [unfolded s1_def] b [unfolded s1_def] c]
      by (simp add: s1_def)
  next
    case False
    then have n: "n = length (fst s)" using "1.prems"(2) by simp
    have eq: "updateLoop g rng dt n s = s"
      using False by (subst updateLoop.simps) simp
    show ?thesis
      unfolding eq using "1.prems"(1,3) n by simp
  qed
qed

text \<open>
  C6. updateFires (with a scene) runs one round for each place of the map, in order,
  the cells it appends included, until the place reaches the end; without a scene it
  returns its input. A cell that was in the map when the call began ends with its key,
  its timer and intensity grown by deltaTime and 0.1 times deltaTime (capped at 1), and
  its timer reset to 0 exactly when the game speed is not zero and the grown timer
  exceeds FIRE_SPREAD_RATE divided by the game speed. A round spreads only in that
  case, and then it is exactly four attempts, for the directions (2, 0), (-2, 0),
  (0, 2), (0, -2) in this order, each on its own draw, the next unused one: an attempt
  succeeds exactly when its draw is below intensity times wind speed times 0.2, its
  wind-shifted target lies strictly inside the world and the key of the target is not
  in the map; it then appends a cell of intensity 0.3 at the snapped target.
\<close>

theorem updateFires_spread:
  fixes g :: GameState and r :: Refs and rng :: "nat \<Rightarrow> real" and i j n :: nat
    and fs m :: FireMap and deltaTime :: real
  defines "grown \<equiv> \<lambda>fire. fire\<lparr>spreadTime := spreadTime fire + deltaTime,
                                   intensity := min 1 (intensity fire + deltaTime * 0.1)\<rparr>"
  defines "due \<equiv> \<lambda>fire. gameSpeed g \<noteq> 0 \<and> spreadTime (grown fire) > FIRE_SPREAD_RATE / gameSpeed g"
  defines "source \<equiv> \<lambda>fire. (grown fire)\<lparr>spreadTime := 0\<rparr>"
  defines "chance \<equiv> \<lambda>fire. intensity (grown fire) * windSpeed g * 0.2"
  defines "drawn \<equiv> \<lambda>fire. (case mesh fire of None \<Rightarrow> j | Some particles \<Rightarrow> j + particles)"
  defines "result \<equiv> updateFires g r rng i fs deltaTime"
  shows "(\<not> sceneRef r \<longrightarrow> result = (fs, i)) \<and>
         (sceneRef r \<longrightarrow>
            result = rounds g rng deltaTime (length (fst result)) (fs, i) \<and>
            (\<forall>k<length (fst result). k < length (fst (rounds g rng deltaTime k (fs, i)))) \<and>
            take (length fs) (fst result) =
              map (\<lambda>e. (fst e, if due (snd e) then source (snd e) else grown (snd e))) fs) \<and>
         updateFire g rng deltaTime n (m, j) =
           (if due (snd (m ! n))
            then specSpreadAttempt g rng (source (snd (m ! n))) (chance (snd (m ! n))) (0, - GRID_SIZE)
                   (specSpreadAttempt g rng (source (snd (m ! n))) (chance (snd (m ! n))) (0, GRID_SIZE)
                     (specSpreadAttempt g rng (source (snd (m ! n))) (chance (snd (m ! n))) (- GRID_SIZE, 0)
                       (specSpreadAttempt g rng (source (snd (m ! n))) (chance (snd (m ! n))) (GRID_SIZE, 0)
                         (m[n := (fst (m ! n), source (snd (m ! n)))], drawn (snd (m ! n))))))
            else (m[n := (fst (m ! n), grown (snd (m ! n)))], drawn (snd (m ! n))))"
proof -
  have a: "\<not> sceneRef r \<Longrightarrow> result = (fs, i)"
    by (simp add: result_def updateFires_def)
  have res: "sceneRef r \<Longrightarrow> result = updateLoop g rng deltaTime 0 (fs, i)"
    by (simp add: result_def updateFires_def)
  have b: "result = rounds g rng deltaTime (length (fst result)) (fs, i) \<and>
           (\<forall>k<length (fst result). k < length (fst (rounds g rng deltaTime k (fs, i))))"
    if sc: "sceneRef r"
    unfolding res [OF sc]
    by (rule updateLoop_rounds) simp_all
  have tc: "tickCell g deltaTime fire = (if due fire then source fire else grown fire)" for fire
    by (simp add: tickCell_def Let_def spreadDue_def due_def source_def grown_def)
  have c: "take (length fs) (fst result) =
             map (\<lambda>e. (fst e, if due (snd e) then source (snd e) else grown (snd e))) fs"
    if sc: "sceneRef r"
  proof (rule nth_equalityI)
    have len: "length fs \<le> length (fst result)"
      unfolding res [OF sc] using updateLoop_length [of "(fs, i)" g rng deltaTime 0] by simp
    then show "length (take (length fs) (fst result)) =
        length (map (\<lambda>e. (fst e, if due (snd e) then source (snd e) else grown (snd e))) fs)"
      by simp
    fix k assume "k < length (take (length fs) (fst result))"
    then have k: "k < length fs" by simp
    have "fst result ! k = (fst (fs ! k), tickCell g deltaTime (snd (fs ! k)))"
      unfolding res [OF sc]
      using updateLoop_nth [of 0 "(fs, i)" k g rng deltaTime] k by simp
    then show "take (length fs) (fst result) ! k =
        map (\<lambda>e. (fst e, if due (snd e) then source (snd e) else grown (snd e))) fs ! k"
      using k by (simp add: tc)
  qed
  have d: "updateFire g rng deltaTime n (m, j) =
           (if due (snd (m ! n))
            then specSpreadAttempt g rng (source (snd (m ! n))) (chance (snd (m ! n))) (0, - GRID_SIZE)
                   (specSpreadAttempt g rng (source (snd (m ! n))) (chance (snd (m ! n))) (0, GRID_SIZE)
                     (specSpreadAttempt g rng (source (snd (m ! n))) (chance (snd (m ! n))) (- GRID_SIZE, 0)
                       (specSpreadAttempt g rng (source (snd (m ! n))) (chance (snd (m ! n))) (GRID_SIZE, 0)
                         (m[n := (fst (m ! n), source (snd (m ! n)))], drawn (snd (m ! n))))))
            else (m[n := (fst (m ! n), grown (snd (m ! n)))], drawn (snd (m ! n))))"
    unfolding updateFire_exact
    by (simp add: Let_def due_def source_def grown_def chance_def drawn_def)
  show ?thesis using a b c d by blast
qed

lemma dueFire_length: "length dueFire = 1"
  by (simp add: dueFire_def)

lemma updateFires_example:
  "updateFires (treeScene []) shootRefs rngZero 0 dueFire 0.1 =
     ([(''0--2'', \<lparr>fx = 0, fz = -4, intensity = 0.51, spreadTime = 0, mesh = Some 300\<rparr>),
       (''1--2'', \<lparr>fx = 2, fz = -4, intensity = 0.31, spreadTime = 0.1, mesh = Some 250\<rparr>),
       (''-1--2'', \<lparr>fx = -2, fz = -4, intensity = 0.31, spreadTime = 0.1, mesh = Some 250\<rparr>),
       (''0--1'', \<lparr>fx = 0, fz = -2, intensity = 0.31, spreadTime = 0.1, mesh = Some 250\<rparr>),
       (''0--3'', \<lparr>fx = 0, fz = -6, intensity = 0.31, spreadTime = 0.1, mesh = Some 250\<rparr>)],
      6304)"
proof -
  have r0: "updateLoop (treeScene []) rngZero (1 / 10) 0 (dueFire, 0) =
      updateLoop (treeScene []) rngZero (1 / 10) 1
        (updateFire (treeScene []) rngZero (1 / 10) 0 (dueFire, 0))"
    by (subst updateLoop.simps) (simp add: dueFire_length)
  have rest: "gameSpeed g = 1 \<Longrightarrow>
      updateLoop g rng (1 / 10) (Suc 0)
        ([e0,
          (k1, \<lparr>fx = x1, fz = z1, intensity = 3 / 10, spreadTime = 0, mesh = Some 250\<rparr>),
          (k2, \<lparr>fx = x2, fz = z2, intensity = 3 / 10, spreadTime = 0, mesh = Some 250\<rparr>),
          (k3, \<lparr>fx = x3, fz = z3, intensity = 3 / 10, spreadTime = 0, mesh = Some 250\<rparr>),
          (k4, \<lparr>fx = x4, fz = z4, intensity = 3 / 10, spreadTime = 0, mesh = Some 250\<rparr>)], c) =
        ([e0,
          (k1, \<lparr>fx = x1, fz = z1, intensity = 31 / 100, spreadTime = 1 / 10, mesh = Some 250\<rparr>),
          (k2, \<lparr>fx = x2, fz = z2, intensity = 31 / 100, spreadTime = 1 / 10, mesh = Some 250\<rparr>),
          (k3, \<lparr>fx = x3, fz = z3, intensity = 31 / 100, spreadTime = 1 / 10, mesh = Some 250\<rparr>),
          (k4, \<lparr>fx = x4, fz = z4, intensity = 31 / 100, spreadTime = 1 / 10, mesh = Some 250\<rparr>)],
         c + 1000)" for g rng e0 k1 k2 k3 k4 x1 x2 x3 x4 z1 z2 z3 z4 c
    by (simp add: updateLoop.simps [of _ _ _ "Suc 0"] updateLoop.simps [of _ _ _ "Suc (Suc 0)"]
        updateLoop.simps [of _ _ _ "Suc (Suc (Suc 0))"]
        updateLoop.simps [of _ _ _ "Suc (Suc (Suc (Suc 0)))"]
        updateLoop.simps [of _ _ _ "Suc (Suc (Suc (Suc (Suc 0))))"]
        updateFire_def spreadDue_def FIRE_SPREAD_RATE_def Let_def)
  show ?thesis
    by (simp add: updateFires_def shootRefs_def r0 updateFire_example rest treeScene_simps)
qed

theorem updateFires_spread_witness:
  "sceneRef shootRefs \<and>
   gameSpeed (treeScene []) \<noteq> 0 \<and>
   FIRE_SPREAD_RATE / gameSpeed (treeScene []) < spreadTime (snd (dueFire ! 0)) + 0.1 \<and>
   updateFire (treeScene []) rngZero 0.1 0 (dueFire, 0) =
     ([(''0--2'', \<lparr>fx = 0, fz = -4, intensity = 0.51, spreadTime = 0, mesh = Some 300\<rparr>),
       (''1--2'', \<lparr>fx = 2, fz = -4, intensity = 0.3, spreadTime = 0, mesh = Some 250\<rparr>),
       (''-1--2'', \<lparr>fx = -2, fz = -4, intensity = 0.3, spreadTime = 0, mesh = Some 250\<rparr>),
       (''0--1'', \<lparr>fx = 0, fz = -2, intensity = 0.3, spreadTime = 0, mesh = Some 250\<rparr>),
       (''0--3'', \<lparr>fx = 0, fz = -6, intensity = 0.3, spreadTime = 0, mesh = Some 250\<rparr>)],
      5304) \<and>
   updateFires (treeScene []) shootRefs rngZero 0 dueFire 0.1 =
     ([(''0--2'', \<lparr>fx = 0, fz = -4, intensity = 0.51, spreadTime = 0, mesh = Some 300\<rparr>),
       (''1--2'', \<lparr>fx = 2, fz = -4, intensity = 0.31, spreadTime = 0.1, mesh = Some 250\<rparr>),
       (''-1--2'', \<lparr>fx = -2, fz = -4, intensity = 0.31, spreadTime = 0.1, mesh = Some 250\<rparr>),
       (''0--1'', \<lparr>fx = 0, fz = -2, intensity = 0.31, spreadTime = 0.1, mesh = Some 250\<rparr>),
       (''0--3'', \<lparr>fx = 0, fz = -6, intensity = 0.31, spreadTime = 0.1, mesh = Some 250\<rparr>)],
      6304) \<and>
   take (length dueFire) (fst (updateFires (treeScene []) shootRefs rngZero 0 dueFire 0.1)) =
     [(''0--2'', \<lparr>fx = 0, fz = -4, intensity = 0.51, spreadTime = 0, mesh = Some 300\<rparr>)]"
proof -
  have sc: "sceneRef shootRefs" by (simp add: shootRefs_def)
  have due: "gameSpeed (treeScene []) \<noteq> 0 \<and>
     FIRE_SPREAD_RATE / gameSpeed (treeScene []) < spreadTime (snd (dueFire ! 0)) + 0.1"
    by (simp add: treeScene_def initialGameState_def dueFire_def FIRE_SPREAD_RATE_def)
  have "take (length dueFire) (fst (updateFires (treeScene []) shootRefs rngZero 0 dueFire 0.1)) =
     [(''0--2'', \<lparr>fx = 0, fz = -4, intensity = 0.51, spreadTime = 0, mesh = Some 300\<rparr>)]"
    using updateFires_spread [where g = "treeScene []" and r = shootRefs and rng = rngZero
        and i = 0 and fs = dueFire and deltaTime = "0.1", THEN conjunct2, THEN conjunct1] sc
    by (simp add: dueFire_def treeScene_simps FIRE_SPREAD_RATE_def)
  then show ?thesis
    using sc due by (simp add: updateFires_example updateFire_example)
qed

end
